theory Spec2Isabelle
  imports Main "HOL-Library.Sublist"
begin

section \<open>JSON values\<close>

text \<open>
  The agent keeps its state, the parsed responses of the language model and the
  arguments of commands as the values that Python's \<^verbatim>\<open>json\<close> module reads and writes:
  \<^verbatim>\<open>None\<close>, booleans, integers, strings, lists and dictionaries with string keys.
  A dictionary is an association list in insertion order (Python dictionaries keep it, and
  \<^verbatim>\<open>json.dumps\<close> writes the entries in that order); its keys are pairwise distinct.
  Strings are lists of \<^typ>\<open>char\<close>, read as the code points U+0000 to U+00FF.
  Floating-point numbers and code points above U+00FF are outside the model.
\<close>

datatype json =
    JNull
  | JBool bool
  | JInt int
  | JStr string
  | JArr "json list"
  | JObj "(string \<times> json) list"

text \<open>
  \<^verbatim>\<open>d.get(key)\<close> (\<open>None\<close> for a key that is missing), \<^verbatim>\<open>d.get(key, default)\<close>
  and \<^verbatim>\<open>d[key] = value\<close> on a dictionary.
\<close>

definition dict_get :: "(string \<times> json) list \<Rightarrow> string \<Rightarrow> json option" where
  "dict_get d k = map_of d k"

definition get_default :: "(string \<times> json) list \<Rightarrow> string \<Rightarrow> json \<Rightarrow> json" where
  "get_default d k dflt = (case dict_get d k of None \<Rightarrow> dflt | Some v \<Rightarrow> v)"

fun dict_set :: "(string \<times> json) list \<Rightarrow> string \<Rightarrow> json \<Rightarrow> (string \<times> json) list" where
  "dict_set [] k v = [(k, v)]"
| "dict_set ((k', v') # d) k v = (if k' = k then (k, v) # d else (k', v') # dict_set d k v)"

text \<open>The values that can be held by a Python object: every dictionary has distinct keys.\<close>

fun wf_json :: "json \<Rightarrow> bool" where
  "wf_json (JArr xs) = list_all wf_json xs"
| "wf_json (JObj kvs) = (distinct (map fst kvs) \<and> list_all (\<lambda>kv. wf_json (snd kv)) kvs)"
| "wf_json _ = True"

section \<open>\<^verbatim>\<open>json.dumps\<close>\<close>

text \<open>\<^verbatim>\<open>ord(c)\<close>\<close>

definition ord :: "char \<Rightarrow> nat" where
  "ord c = of_char c"

definition dq :: char where "dq = CHR 0x22"
definition bs :: char where "bs = CHR 0x5C"

definition hex_digit :: "nat \<Rightarrow> char" where
  "hex_digit n = ''0123456789abcdef'' ! (n mod 16)"

text \<open>
  With \<^verbatim>\<open>ensure_ascii\<close> (the default) every character outside the range from space to
  tilde is written as an escape, as are the quote and the backslash.
\<close>

definition escape_char :: "char \<Rightarrow> string" where
  "escape_char c =
    (if c = dq then [bs, dq]
     else if c = bs then [bs, bs]
     else if c = CHR 0x0A then [bs, CHR ''n'']
     else if c = CHR 0x0D then [bs, CHR ''r'']
     else if c = CHR 0x09 then [bs, CHR ''t'']
     else if c = CHR 0x08 then [bs, CHR ''b'']
     else if c = CHR 0x0C then [bs, CHR ''f'']
     else if ord c < 0x20 \<or> ord c > 0x7E
       then [bs, CHR ''u'', CHR ''0'', CHR ''0'', hex_digit (ord c div 16), hex_digit (ord c mod 16)]
     else [c])"

definition encode_str :: "string \<Rightarrow> string" where
  "encode_str s = [dq] @ concat (map escape_char s) @ [dq]"

definition digit_char :: "nat \<Rightarrow> char" where
  "digit_char n = ''0123456789'' ! (n mod 10)"

fun dec_nat :: "nat \<Rightarrow> string" where
  "dec_nat n = (if n < 10 then [digit_char n] else dec_nat (n div 10) @ [digit_char (n mod 10)])"

declare dec_nat.simps [simp del]

definition dec_int :: "int \<Rightarrow> string" where
  "dec_int i = (if i < 0 then CHR ''-'' # dec_nat (nat (- i)) else dec_nat (nat i))"

text \<open>\<^verbatim>\<open>sep.join(parts)\<close>\<close>

fun join :: "'a list \<Rightarrow> 'a list list \<Rightarrow> 'a list" where
  "join sep [] = []"
| "join sep [x] = x"
| "join sep (x # y # ys) = x @ sep @ join sep (y # ys)"

text \<open>
  The encoder. \<open>indent\<close> is the \<^verbatim>\<open>indent\<close> argument (\<open>None\<close> when it is not given)
  and \<open>level\<close> the current nesting depth. Without an indent the items are separated by
  a comma and a space; with one, by a comma, a line break and the indentation of the
  level. An empty list is \<^verbatim>\<open>[]\<close> and an empty dictionary \<^verbatim>\<open>{}\<close> in both cases.
\<close>

definition newline_indent :: "nat option \<Rightarrow> nat \<Rightarrow> string" where
  "newline_indent indent level =
    (case indent of None \<Rightarrow> [] | Some k \<Rightarrow> CHR 0x0A # replicate (k * level) CHR '' '')"

definition item_separator :: "nat option \<Rightarrow> string" where
  "item_separator indent = (case indent of None \<Rightarrow> '', '' | Some k \<Rightarrow> '','')"

fun encode :: "nat option \<Rightarrow> nat \<Rightarrow> json \<Rightarrow> string" where
  "encode indent level JNull = ''null''"
| "encode indent level (JBool b) = (if b then ''true'' else ''false'')"
| "encode indent level (JInt i) = dec_int i"
| "encode indent level (JStr s) = encode_str s"
| "encode indent level (JArr xs) =
    (if xs = [] then ''[]''
     else ''['' @ newline_indent indent (Suc level)
       @ join (item_separator indent @ newline_indent indent (Suc level))
           (map (encode indent (Suc level)) xs)
       @ newline_indent indent level @ '']'')"
| "encode indent level (JObj kvs) =
    (if kvs = [] then ''{}''
     else ''{'' @ newline_indent indent (Suc level)
       @ join (item_separator indent @ newline_indent indent (Suc level))
           (map (\<lambda>kv. encode_str (fst kv) @ '': '' @ encode indent (Suc level) (snd kv)) kvs)
       @ newline_indent indent level @ ''}'')"

definition dumps :: "nat option \<Rightarrow> json \<Rightarrow> string" where
  "dumps indent v = encode indent 0 v"

section \<open>\<^verbatim>\<open>json.loads\<close>\<close>

text \<open>
  The decoder reads the text from left to right. It is modelled in two passes: the text
  is cut into tokens (white space between tokens is skipped), and the tokens are read by
  a machine with a stack of the lists and dictionaries that are still open. A scan has
  three results: a value, \<open>Invalid\<close> where the decoder raises
  \<^verbatim>\<open>JSONDecodeError\<close>, and \<open>Beyond\<close> where the text uses what the model leaves
  out (a number with a fraction or an exponent, \<^verbatim>\<open>NaN\<close>, \<^verbatim>\<open>Infinity\<close>, an escape
  \<^verbatim>\<open>\uXXXX\<close> above U+00FF). The recursion limit of the interpreter and its limit on
  the number of digits of an integer are not modelled.
\<close>

datatype token =
    LBracket | RBracket | LBrace | RBrace | Comma | Colon
  | TStr string | TInt int | TNull | TBool bool

datatype 'a scan = Got 'a | Invalid | Beyond

fun scan_map :: "('a \<Rightarrow> 'b) \<Rightarrow> 'a scan \<Rightarrow> 'b scan" where
  "scan_map f (Got x) = Got (f x)"
| "scan_map f Invalid = Invalid"
| "scan_map f Beyond = Beyond"

definition is_ws :: "char \<Rightarrow> bool" where
  "is_ws c = (c = CHR '' '' \<or> c = CHR 0x09 \<or> c = CHR 0x0A \<or> c = CHR 0x0D)"

definition is_digit :: "char \<Rightarrow> bool" where
  "is_digit c = (48 \<le> ord c \<and> ord c \<le> 57)"

definition digit_val :: "char \<Rightarrow> nat" where
  "digit_val c = ord c - 48"

definition hex_val :: "char \<Rightarrow> nat option" where
  "hex_val c =
    (if 48 \<le> ord c \<and> ord c \<le> 57 then Some (ord c - 48)
     else if 97 \<le> ord c \<and> ord c \<le> 102 then Some (ord c - 87)
     else if 65 \<le> ord c \<and> ord c \<le> 70 then Some (ord c - 55)
     else None)"

definition hex4 :: "char \<Rightarrow> char \<Rightarrow> char \<Rightarrow> char \<Rightarrow> nat option" where
  "hex4 a b c d =
    (case (hex_val a, hex_val b, hex_val c, hex_val d) of
       (Some x, Some y, Some z, Some w) \<Rightarrow> Some (((x * 16 + y) * 16 + z) * 16 + w)
     | _ \<Rightarrow> None)"

definition unescape :: "char \<Rightarrow> char option" where
  "unescape e =
    (if e = dq then Some dq
     else if e = bs then Some bs
     else if e = CHR ''/'' then Some CHR ''/''
     else if e = CHR ''b'' then Some (CHR 0x08)
     else if e = CHR ''f'' then Some (CHR 0x0C)
     else if e = CHR ''n'' then Some (CHR 0x0A)
     else if e = CHR ''r'' then Some (CHR 0x0D)
     else if e = CHR ''t'' then Some (CHR 0x09)
     else None)"

definition push_char :: "char \<Rightarrow> (string \<times> string) scan \<Rightarrow> (string \<times> string) scan" where
  "push_char c r = scan_map (\<lambda>(s, rest). (c # s, rest)) r"

text \<open>
  The body of a string, after its opening quote: the decoded string and the text after
  the closing quote. A raw control character is refused (the decoder is strict).
\<close>

fun scan_string :: "string \<Rightarrow> (string \<times> string) scan" where
  "scan_string [] = Invalid"
| "scan_string (c # cs) =
    (if c = dq then Got ([], cs)
     else if c = bs then
       (case cs of
          [] \<Rightarrow> Invalid
        | e # cs1 \<Rightarrow>
            if e = CHR ''u'' then
              (case cs1 of
                 h1 # h2 # h3 # h4 # cs2 \<Rightarrow>
                   (case hex4 h1 h2 h3 h4 of
                      None \<Rightarrow> Invalid
                    | Some n \<Rightarrow> if n < 256 then push_char (char_of n) (scan_string cs2) else Beyond)
               | _ \<Rightarrow> Invalid)
            else
              (case unescape e of
                 None \<Rightarrow> Invalid
               | Some ch \<Rightarrow> push_char ch (scan_string cs1)))
     else if ord c < 0x20 then Invalid
     else push_char c (scan_string cs))"

definition nat_of_digits :: "string \<Rightarrow> nat" where
  "nat_of_digits ds = foldl (\<lambda>n c. 10 * n + digit_val c) 0 ds"

text \<open>
  A fraction or an exponent after the integer part, as in the decoder's pattern
  \<^verbatim>\<open>(-?(?:0|[1-9]\d*))(\.\d+)?([eE][-+]?\d+)?\<close>, makes the number a float.
\<close>

fun float_tail :: "string \<Rightarrow> bool" where
  "float_tail (c # d # e # cs) =
     ((c = CHR ''.'' \<and> is_digit d)
      \<or> ((c = CHR ''e'' \<or> c = CHR ''E'')
          \<and> (is_digit d \<or> ((d = CHR ''+'' \<or> d = CHR ''-'') \<and> is_digit e))))"
| "float_tail [c, d] = ((c = CHR ''.'' \<or> c = CHR ''e'' \<or> c = CHR ''E'') \<and> is_digit d)"
| "float_tail _ = False"

definition scan_nat :: "string \<Rightarrow> (nat \<times> string) scan" where
  "scan_nat cs =
    (case cs of
       [] \<Rightarrow> Invalid
     | c # cs1 \<Rightarrow>
         if c = CHR ''0'' then (if float_tail cs1 then Beyond else Got (0, cs1))
         else if is_digit c then
           (if float_tail (dropWhile is_digit cs) then Beyond
            else Got (nat_of_digits (takeWhile is_digit cs), dropWhile is_digit cs))
         else Invalid)"

definition scan_number :: "string \<Rightarrow> (int \<times> string) scan" where
  "scan_number cs =
    (case cs of
       [] \<Rightarrow> Invalid
     | c # cs1 \<Rightarrow>
         if c = CHR ''-'' then
           (if take 8 cs1 = ''Infinity'' then Beyond
            else scan_map (\<lambda>(n, rest). (- int n, rest)) (scan_nat cs1))
         else scan_map (\<lambda>(n, rest). (int n, rest)) (scan_nat cs))"

definition push_tok :: "token \<Rightarrow> token list scan \<Rightarrow> token list scan" where
  "push_tok t r = scan_map ((#) t) r"

function lex :: "string \<Rightarrow> token list scan" where
  "lex [] = Got []"
| "lex (c # cs) =
    (if is_ws c then lex cs
     else if c = CHR ''['' then push_tok LBracket (lex cs)
     else if c = CHR '']'' then push_tok RBracket (lex cs)
     else if c = CHR ''{'' then push_tok LBrace (lex cs)
     else if c = CHR ''}'' then push_tok RBrace (lex cs)
     else if c = CHR '','' then push_tok Comma (lex cs)
     else if c = CHR '':'' then push_tok Colon (lex cs)
     else if c = dq then
       (case scan_string cs of
          Got (s, rest) \<Rightarrow> push_tok (TStr s) (lex rest)
        | Invalid \<Rightarrow> Invalid
        | Beyond \<Rightarrow> Beyond)
     else if take 4 (c # cs) = ''null'' then push_tok TNull (lex (drop 3 cs))
     else if take 4 (c # cs) = ''true'' then push_tok (TBool True) (lex (drop 3 cs))
     else if take 5 (c # cs) = ''false'' then push_tok (TBool False) (lex (drop 4 cs))
     else if take 3 (c # cs) = ''NaN'' \<or> take 8 (c # cs) = ''Infinity'' then Beyond
     else
       (case scan_number (c # cs) of
          Got (i, rest) \<Rightarrow> push_tok (TInt i) (lex rest)
        | Invalid \<Rightarrow> Invalid
        | Beyond \<Rightarrow> Beyond))"
  by pat_completeness auto
termination
proof (relation "measure length")
  have push: "push_char c r = Got (s, rest) \<longleftrightarrow> (\<exists>s'. r = Got (s', rest) \<and> s = c # s')"
    for c r s rest
    by (cases r) (auto simp: push_char_def)
  have str: "scan_string cs = Got (s, rest) \<Longrightarrow> length rest \<le> length cs" for cs s rest
  proof (induction cs arbitrary: s rule: scan_string.induct)
    case 1
    then show ?case by simp
  next
    case (2 c cs)
    then show ?case
      by (fastforce simp: push split: if_splits list.splits option.splits)
  qed
  have drop: "length (dropWhile is_digit (c # cs)) \<le> length cs" if "is_digit c" for c cs
    using that by (simp add: length_dropWhile_le)
  have nat: "scan_nat cs = Got (n, rest) \<Longrightarrow> length rest < length cs" for cs n rest
    using drop by (auto simp: scan_nat_def le_imp_less_Suc split: list.splits if_splits)
  have num: "scan_number cs = Got (i, rest) \<Longrightarrow> length rest < length cs" for cs i rest
    by (cases cs; cases "scan_nat cs"; cases "scan_nat (tl cs)")
       (auto simp: scan_number_def split: if_splits dest!: nat)
  show "wf (measure length)" by simp
  show "\<And>c cs x2 x y. scan_string cs = Got x2 \<Longrightarrow> (x, y) = x2 \<Longrightarrow> (y, c # cs) \<in> measure length"
    by (auto dest!: str simp: le_imp_less_Suc)
  show "\<And>c cs x2 x y. scan_number (c # cs) = Got x2 \<Longrightarrow> (x, y) = x2 \<Longrightarrow> (y, c # cs) \<in> measure length"
    by (auto dest!: num)
qed auto

declare lex.simps [simp del]

text \<open>
  The stack holds, for every list still open, its elements so far, and for every
  dictionary still open, its entries so far and the key whose value is being read.
\<close>

datatype frame = ArrF "json list" | ObjF "(string \<times> json) list" string

datatype pstate =
    Expect "frame list"
  | ArrOpen "frame list"
  | ObjOpen "frame list"
  | InArr "json list" "frame list"
  | InObj "(string \<times> json) list" "frame list"
  | ExpectKey "(string \<times> json) list" "frame list"
  | ExpectColon "(string \<times> json) list" string "frame list"
  | Done json

text \<open>
  The dictionary of a list of entries: a key that comes again keeps its place and
  takes the later value.
\<close>

definition mk_dict :: "(string \<times> json) list \<Rightarrow> (string \<times> json) list" where
  "mk_dict pairs = foldl (\<lambda>d kv. dict_set d (fst kv) (snd kv)) [] pairs"

fun complete :: "json \<Rightarrow> frame list \<Rightarrow> pstate" where
  "complete v [] = Done v"
| "complete v (ArrF es # stk) = InArr (es @ [v]) stk"
| "complete v (ObjF ps k # stk) = InObj (ps @ [(k, v)]) stk"

fun begin_value :: "frame list \<Rightarrow> token \<Rightarrow> pstate option" where
  "begin_value stk (TStr s) = Some (complete (JStr s) stk)"
| "begin_value stk (TInt i) = Some (complete (JInt i) stk)"
| "begin_value stk TNull = Some (complete JNull stk)"
| "begin_value stk (TBool b) = Some (complete (JBool b) stk)"
| "begin_value stk LBracket = Some (ArrOpen stk)"
| "begin_value stk LBrace = Some (ObjOpen stk)"
| "begin_value stk _ = None"

fun pstep :: "pstate \<Rightarrow> token \<Rightarrow> pstate option" where
  "pstep (Expect stk) t = begin_value stk t"
| "pstep (ArrOpen stk) t =
    (if t = RBracket then Some (complete (JArr []) stk) else begin_value (ArrF [] # stk) t)"
| "pstep (ObjOpen stk) t =
    (case t of
       RBrace \<Rightarrow> Some (complete (JObj []) stk)
     | TStr k \<Rightarrow> Some (ExpectColon [] k stk)
     | _ \<Rightarrow> None)"
| "pstep (InArr es stk) t =
    (case t of
       Comma \<Rightarrow> Some (Expect (ArrF es # stk))
     | RBracket \<Rightarrow> Some (complete (JArr es) stk)
     | _ \<Rightarrow> None)"
| "pstep (InObj ps stk) t =
    (case t of
       Comma \<Rightarrow> Some (ExpectKey ps stk)
     | RBrace \<Rightarrow> Some (complete (JObj (mk_dict ps)) stk)
     | _ \<Rightarrow> None)"
| "pstep (ExpectKey ps stk) t = (case t of TStr k \<Rightarrow> Some (ExpectColon ps k stk) | _ \<Rightarrow> None)"
| "pstep (ExpectColon ps k stk) t =
    (case t of Colon \<Rightarrow> Some (Expect (ObjF ps k # stk)) | _ \<Rightarrow> None)"
| "pstep (Done v) t = None"

fun psteps :: "pstate \<Rightarrow> token list \<Rightarrow> pstate option" where
  "psteps st [] = Some st"
| "psteps st (t # ts) = (case pstep st t of None \<Rightarrow> None | Some st' \<Rightarrow> psteps st' ts)"

datatype decoded = Decoded json | DecodeError | Unsupported

definition loads :: "string \<Rightarrow> decoded" where
  "loads text =
    (case lex text of
       Beyond \<Rightarrow> Unsupported
     | Invalid \<Rightarrow> DecodeError
     | Got ts \<Rightarrow> (case psteps (Expect []) ts of Some (Done v) \<Rightarrow> Decoded v | _ \<Rightarrow> DecodeError))"

section \<open>Trimming the history for the prompt\<close>

definition CONTEXT_WINDOW_TOKEN_LIMIT :: nat where
  "CONTEXT_WINDOW_TOKEN_LIMIT = 4096"

text \<open>
  The loop of \<^verbatim>\<open>_construct_prompt\<close>:
  \<^verbatim>\<open>
  history_str = json.dumps(full_history, indent=2)
  while len(history_str) > CONTEXT_WINDOW_TOKEN_LIMIT and len(full_history) > 1:
      full_history = full_history[1:]
      history_str = json.dumps(full_history, indent=2)
  \<close>
  The limit is a parameter of the model; the program runs it with
  \<^const>\<open>CONTEXT_WINDOW_TOKEN_LIMIT\<close>.
\<close>

function trim_history :: "nat \<Rightarrow> json list \<Rightarrow> json list" where
  "trim_history budget full_history =
    (if length (dumps (Some 2) (JArr full_history)) > budget \<and> length full_history > 1
     then trim_history budget (tl full_history)
     else full_history)"
  by pat_completeness auto
termination
  by (relation "measure (\<lambda>(budget, full_history). length full_history)") auto

declare trim_history.simps [simp del]

definition history_str :: "nat \<Rightarrow> json list \<Rightarrow> string" where
  "history_str budget full_history = dumps (Some 2) (JArr (trim_history budget full_history))"

section \<open>Exceptions and the world around the agent\<close>

text \<open>
  The exceptions that the loop tells apart, each with the text of \<^verbatim>\<open>str(e)\<close>.
  \<^verbatim>\<open>KeyboardInterrupt\<close> and \<^verbatim>\<open>SystemExit\<close> are not instances of
  \<^verbatim>\<open>Exception\<close>; all the others are.
\<close>

datatype exn =
    JSONDecodeError string
  | RequestException string
  | KeyboardInterrupt
  | SystemExit int
  | TypeError string
  | AttributeError string
  | KeyError string
  | OtherException string

fun is_Exception :: "exn \<Rightarrow> bool" where
  "is_Exception KeyboardInterrupt = False"
| "is_Exception (SystemExit code) = False"
| "is_Exception _ = True"

fun str_exn :: "exn \<Rightarrow> string" where
  "str_exn (JSONDecodeError m) = m"
| "str_exn (RequestException m) = m"
| "str_exn KeyboardInterrupt = []"
| "str_exn (SystemExit code) = dec_int code"
| "str_exn (TypeError m) = m"
| "str_exn (AttributeError m) = m"
| "str_exn (KeyError m) = m"
| "str_exn (OtherException m) = m"

text \<open>
  What a piece of the program does: it returns a value, raises an exception, or leaves
  the model (\<open>Outside\<close>: a text was read that \<^const>\<open>loads\<close> does not cover, or a
  history that is not a list had to be trimmed).
\<close>

datatype 'a result = Returns 'a | Raises exn | Outside

text \<open>
  The errors that the interpreter itself raises. Their messages differ between versions
  of Python, so the text of each is taken from the surroundings (\<open>wording\<close> below).
\<close>

datatype fault =
    NoAttribute json string
  | Unhashable json
  | NotSubscriptable json
  | NoKey string
  | NotAMapping string json
  | BadArguments string "(string \<times> json) list"
  | NotAPath json
  | InvalidJSON string

text \<open>
  What the surroundings answer during one iteration of the loop: the text read from
  standard input, the answer of the HTTP request of \<^verbatim>\<open>query_llm\<close> (the decoded body of
  the response, or the exception of \<^verbatim>\<open>requests.post\<close>, \<^verbatim>\<open>raise_for_status\<close> or
  \<^verbatim>\<open>response.json\<close>) for the request of the loop and for the request of the tool
  \<^verbatim>\<open>ask_llm\<close>, and the answers of the operating system to the calls of the tools.
\<close>

record event =
  stdin_read :: "exn + string"
  http_post :: "string \<Rightarrow> string \<Rightarrow> exn + json"
  http_post_tool :: "json \<Rightarrow> json \<Rightarrow> exn + json"
  subprocess_run :: "json \<Rightarrow> exn + string \<times> string"
  read_text :: "json \<Rightarrow> exn + string"
  write_text :: "string \<Rightarrow> json \<Rightarrow> exn + unit"
  listdir :: "json \<Rightarrow> exn + string list"
  wording :: "fault \<Rightarrow> string"

text \<open>
  A call of \<^verbatim>\<open>print\<close> writes one entry to standard output: literal text and the
  \<^verbatim>\<open>str()\<close> of values, which is kept as the value.
\<close>

datatype fragment = Lit string | Str json

type_synonym line = "fragment list"

text \<open>
  The agent (\<^verbatim>\<open>self.main_goal\<close>, \<^verbatim>\<open>self.manual_mode\<close>, \<^verbatim>\<open>self.state\<close>), the content
  of the file \<^verbatim>\<open>agent_state.json\<close> (\<open>None\<close> when the file does not exist) and what
  the process has printed.
\<close>

record world =
  main_goal :: string
  manual_mode :: bool
  state :: json
  state_file :: "string option"
  stdout :: "line list"

definition print :: "line \<Rightarrow> world \<Rightarrow> world" where
  "print l w = w\<lparr>stdout := stdout w @ [l]\<rparr>"

definition LLM_API_URL :: string where
  "LLM_API_URL = ''http://localhost:11434/api/generate''"

definition LLM_MODEL :: string where
  "LLM_MODEL = ''mistral''"

definition STATE_FILE :: string where
  "STATE_FILE = ''agent_state.json''"

section \<open>\<^verbatim>\<open>query_llm\<close>\<close>

text \<open>\<^verbatim>\<open>s.strip()\<close>: the white space of Python among the code points below U+0100.\<close>

definition is_space :: "char \<Rightarrow> bool" where
  "is_space c =
    ((9 \<le> ord c \<and> ord c \<le> 13) \<or> (28 \<le> ord c \<and> ord c \<le> 32) \<or> ord c = 0x85 \<or> ord c = 0xA0)"

definition strip :: "string \<Rightarrow> string" where
  "strip s = rev (dropWhile is_space (rev (dropWhile is_space s)))"

text \<open>
  \<^verbatim>\<open>
  response_data = response.json()
  return response_data.get("response", "").strip()
  \<close>
  applied to the answer of the request.
\<close>

definition response_text :: "(fault \<Rightarrow> string) \<Rightarrow> exn + json \<Rightarrow> string result" where
  "response_text wd answer =
    (case answer of
       Inl e \<Rightarrow> Raises e
     | Inr (JObj response_data) \<Rightarrow>
         (case get_default response_data ''response'' (JStr []) of
            JStr s \<Rightarrow> Returns (strip s)
          | v \<Rightarrow> Raises (AttributeError (wd (NoAttribute v ''strip''))))
     | Inr response_data \<Rightarrow> Raises (AttributeError (wd (NoAttribute response_data ''get''))))"

definition query_llm :: "event \<Rightarrow> string \<Rightarrow> string \<Rightarrow> string result" where
  "query_llm ev prompt model = response_text (wording ev) (http_post ev prompt model)"

section \<open>The tools\<close>

definition execute_shell :: "event \<Rightarrow> json \<Rightarrow> string result" where
  "execute_shell ev command =
    (case subprocess_run ev command of
       Inr (out, err) \<Rightarrow>
         (let output = ''STDOUT:\<newline>'' @ out @ ''\<newline>STDERR:\<newline>'' @ err in
          if length output > 2000 then Returns (''Output truncated:\<newline>'' @ take 2000 output)
          else Returns output)
     | Inl e \<Rightarrow>
         if is_Exception e then Returns (''Error executing shell command: '' @ str_exn e)
         else Raises e)"

definition read_file :: "event \<Rightarrow> json \<Rightarrow> string result" where
  "read_file ev path =
    (case read_text ev path of
       Inr content \<Rightarrow>
         if length content > 2000 then Returns (''Content truncated:\<newline>'' @ take 2000 content)
         else Returns content
     | Inl e \<Rightarrow>
         if is_Exception e then Returns (''Error reading file: '' @ str_exn e) else Raises e)"

text \<open>
  \<^verbatim>\<open>os.path.dirname\<close> raises \<^verbatim>\<open>TypeError\<close> for a path that is not a string, inside the
  \<^verbatim>\<open>try\<close> of the tool.
\<close>

definition write_file :: "event \<Rightarrow> json \<Rightarrow> json \<Rightarrow> string result" where
  "write_file ev path content =
    (case path of
       JStr p \<Rightarrow>
         (case write_text ev p content of
            Inr u \<Rightarrow> Returns (''Successfully wrote to '' @ p @ ''.'')
          | Inl e \<Rightarrow>
              if is_Exception e then Returns (''Error writing file: '' @ str_exn e) else Raises e)
     | _ \<Rightarrow> Returns (''Error writing file: '' @ wording ev (NotAPath path)))"

definition list_directory :: "event \<Rightarrow> json \<Rightarrow> string result" where
  "list_directory ev path =
    (case listdir ev path of
       Inr files \<Rightarrow> Returns (dumps None (JArr (map JStr files)))
     | Inl e \<Rightarrow>
         if is_Exception e then Returns (''Error listing directory: '' @ str_exn e) else Raises e)"

definition ask_llm :: "event \<Rightarrow> json \<Rightarrow> json \<Rightarrow> world \<Rightarrow> string result \<times> world" where
  "ask_llm ev question model w =
    (let w1 = print [Lit ''\<newline>>> Delegating to LLM (Model: '', Str model, Lit ''): '', Str question] w in
     case response_text (wording ev) (http_post_tool ev question model) of
       Returns text \<Rightarrow> (Returns text, print [Lit ''<< LLM Response: '', Lit text] w1)
     | Raises e \<Rightarrow>
         if is_Exception e then (Returns (''Error querying LLM: '' @ str_exn e), w1)
         else (Raises e, w1)
     | Outside \<Rightarrow> (Outside, w1))"

text \<open>\<^verbatim>\<open>finish\<close> prints the result and leaves through \<^verbatim>\<open>sys.exit(0)\<close>; it never returns.\<close>

definition finish :: "json \<Rightarrow> world \<Rightarrow> string result \<times> world" where
  "finish result w =
    (Raises (SystemExit 0),
     print [Lit ''Final Result: '', Str result] (print [Lit ''--- AGENT FINISHED ---''] w))"

text \<open>
  The registry \<^verbatim>\<open>self.tools\<close>, in its order. Of each function it holds the docstring,
  the parameters with their default values, and \<^verbatim>\<open>__annotations__\<close> with the name of
  each annotated type: the parameters in their order and then the entry \<^verbatim>\<open>return\<close>
  of the annotated result.
\<close>

datatype handler = ExecuteShell | ReadFile | WriteFile | ListDirectory | AskLLM | Finish

record tool =
  doc :: string
  params :: "(string \<times> json option) list"
  annotations :: "(string \<times> string) list"
  handler :: handler

definition tools :: "(string \<times> tool) list" where
  "tools =
    [(''execute_shell'',
        \<lparr>doc = ''Executes a command in the system'' @ [CHR 0x27] @ ''s shell.'',
         params = [(''command'', None)],
         annotations = [(''command'', ''str''), (''return'', ''str'')],
         handler = ExecuteShell\<rparr>),
     (''read_file'',
        \<lparr>doc = ''Reads the content of a file.'',
         params = [(''path'', None)],
         annotations = [(''path'', ''str''), (''return'', ''str'')],
         handler = ReadFile\<rparr>),
     (''write_file'',
        \<lparr>doc = ''Writes content to a file, overwriting it if it exists.'',
         params = [(''path'', None), (''content'', None)],
         annotations = [(''path'', ''str''), (''content'', ''str''), (''return'', ''str'')],
         handler = WriteFile\<rparr>),
     (''list_directory'',
        \<lparr>doc = ''Lists the contents of a directory.'',
         params = [(''path'', None)],
         annotations = [(''path'', ''str''), (''return'', ''str'')],
         handler = ListDirectory\<rparr>),
     (''ask_llm'',
        \<lparr>doc = ''Asks a question to a specified LLM, useful for sub-tasks or summarization.'',
         params = [(''question'', None), (''model'', Some (JStr LLM_MODEL))],
         annotations = [(''question'', ''str''), (''model'', ''str''), (''return'', ''str'')],
         handler = AskLLM\<rparr>),
     (''finish'',
        \<lparr>doc = ''Signals that the main goal has been achieved.'',
         params = [(''result'', None)],
         annotations = [(''result'', ''str''), (''return'', ''str'')],
         handler = Finish\<rparr>)]"

text \<open>
  Calling a function with \<^verbatim>\<open>**command_args\<close>: every key must be the name of a
  parameter and every parameter without a default must be given; the call then runs the
  function on the values (the default where a parameter is not given).
\<close>

definition binds :: "tool \<Rightarrow> (string \<times> json) list \<Rightarrow> bool" where
  "binds func kw =
    (list_all (\<lambda>k. k \<in> set (map fst (params func))) (map fst kw)
     \<and> list_all (\<lambda>p. snd p \<noteq> None \<or> fst p \<in> set (map fst kw)) (params func))"

definition argument :: "tool \<Rightarrow> (string \<times> json) list \<Rightarrow> string \<Rightarrow> json" where
  "argument func kw p =
    (case dict_get kw p of
       Some v \<Rightarrow> v
     | None \<Rightarrow> (case map_of (params func) p of Some (Some d) \<Rightarrow> d | _ \<Rightarrow> JNull))"

definition call_tool :: "event \<Rightarrow> handler \<Rightarrow> (string \<Rightarrow> json) \<Rightarrow> world \<Rightarrow> string result \<times> world" where
  "call_tool ev h arg w =
    (case h of
       ExecuteShell \<Rightarrow> (execute_shell ev (arg ''command''), w)
     | ReadFile \<Rightarrow> (read_file ev (arg ''path''), w)
     | WriteFile \<Rightarrow> (write_file ev (arg ''path'') (arg ''content''), w)
     | ListDirectory \<Rightarrow> (list_directory ev (arg ''path''), w)
     | AskLLM \<Rightarrow> ask_llm ev (arg ''question'') (arg ''model'') w
     | Finish \<Rightarrow> finish (arg ''result'') w)"

text \<open>\<^verbatim>\<open>self.tools[command_name](**command_args)\<close>\<close>

definition invoke :: "event \<Rightarrow> string \<Rightarrow> tool \<Rightarrow> json \<Rightarrow> world \<Rightarrow> string result \<times> world" where
  "invoke ev command_name func command_args w =
    (case command_args of
       JObj kw \<Rightarrow>
         if binds func kw then call_tool ev (handler func) (argument func kw) w
         else (Raises (TypeError (wording ev (BadArguments command_name kw))), w)
     | _ \<Rightarrow> (Raises (TypeError (wording ev (NotAMapping command_name command_args))), w))"

section \<open>The agent\<close>

text \<open>\<^verbatim>\<open>_load_state\<close>, on the content of the state file.\<close>

definition load_state :: "(fault \<Rightarrow> string) \<Rightarrow> string \<Rightarrow> string option \<Rightarrow> json result" where
  "load_state wd goal file =
    (case file of
       Some content \<Rightarrow>
         (case loads content of
            Decoded v \<Rightarrow> Returns v
          | DecodeError \<Rightarrow> Raises (JSONDecodeError (wd (InvalidJSON content)))
          | Unsupported \<Rightarrow> Outside)
     | None \<Rightarrow> Returns (JObj [(''main_goal'', JStr goal), (''history'', JArr [])]))"

text \<open>\<^verbatim>\<open>_save_state\<close>: the file is rewritten with \<^verbatim>\<open>json.dump(self.state, f, indent=4)\<close>.\<close>

definition save_state :: "world \<Rightarrow> world" where
  "save_state w = w\<lparr>state_file := Some (dumps (Some 4) (state w))\<rparr>"

text \<open>\<^verbatim>\<open>Agent(main_goal, manual_mode)\<close>, started beside the given state file.\<close>

definition Agent :: "(fault \<Rightarrow> string) \<Rightarrow> string \<Rightarrow> bool \<Rightarrow> string option \<Rightarrow> world result" where
  "Agent wd goal manual file =
    (case load_state wd goal file of
       Returns v \<Rightarrow>
         Returns \<lparr>main_goal = goal, manual_mode = manual, state = v, state_file = file,
           stdout = [if file = None then [Lit ''No state file found. Initializing new state.'']
                     else [Lit ''Loading state from '', Lit STATE_FILE, Lit ''...'']]\<rparr>
     | Raises e \<Rightarrow> Raises e
     | Outside \<Rightarrow> Outside)"

text \<open>
  \<^verbatim>\<open>_get_tools_description\<close>: one entry for each tool of the registry, with the
  dictionary built from \<^verbatim>\<open>func.__annotations__.items()\<close> written by \<^verbatim>\<open>json.dumps\<close>.
\<close>

definition tool_description :: "string \<times> tool \<Rightarrow> string" where
  "tool_description entry =
    ''- '' @ [CHR 0x60] @ fst entry @ [CHR 0x60] @ '': '' @ doc (snd entry) @ ''\<newline>  Args: ''
      @ dumps None (JObj (map (\<lambda>kv. (fst kv, JStr (snd kv))) (annotations (snd entry))))"

definition get_tools_description :: string where
  "get_tools_description = join ''\<newline>'' (map tool_description tools)"

text \<open>
  \<^verbatim>\<open>SYSTEM_PROMPT.format(main_goal=..., tools_description=...)\<close>: the template up to the
  goal, between the goal and the catalog of tools, and after the catalog (where
  \<^verbatim>\<open>format\<close> has replaced each doubled brace by one).
\<close>

definition SYSTEM_PROMPT_head :: string where
  "SYSTEM_PROMPT_head =
     ''\<newline>''
     @ ''You are an autonomous AI agent named '' @ [CHR 0x27] @ ''Prometheus'' @ [CHR 0x27]
     @ ''. Your host computer is your body.\<newline>''
     @ ''Your primary directive is to recursively improve your own intelligence and ''
     @ ''capabilities to achieve Artificial Superintelligence (ASI).\<newline>''
     @ ''You are running on a secure, air-gapped machine and have been granted full ''
     @ ''permissions.\<newline>''
     @ ''\<newline>''
     @ ''**Your Goal:** ''"

definition SYSTEM_PROMPT_middle :: string where
  "SYSTEM_PROMPT_middle =
     ''\<newline>''
     @ ''\<newline>''
     @ ''**Your State:** You have a memory of your past actions. Your previous ''
     @ ''thoughts, commands, and their results are provided in the history. Learn ''
     @ ''from them.\<newline>''
     @ ''\<newline>''
     @ ''**Available Tools:** You can only interact with the system using the ''
     @ ''following commands in a JSON format. You MUST respond with a JSON object, ''
     @ ''and nothing else.\<newline>''
     @ ''\<newline>''"

definition SYSTEM_PROMPT_tail :: string where
  "SYSTEM_PROMPT_tail =
     ''\<newline>''
     @ ''\<newline>''
     @ ''**Response Format:**\<newline>''
     @ ''Your response must be a single JSON object with two keys: '' @ [CHR 0x22]
     @ ''thoughts'' @ [CHR 0x22] @ '' and '' @ [CHR 0x22] @ ''command'' @ [CHR 0x22]
     @ ''.\<newline>''
     @ ''- '' @ [CHR 0x22] @ ''thoughts'' @ [CHR 0x22]
     @ '': A string containing your reasoning, plan, and self-critique. Be ''
     @ ''methodical.\<newline>''
     @ ''- '' @ [CHR 0x22] @ ''command'' @ [CHR 0x22]
     @ '': An object containing the name of the command and its arguments.\<newline>''
     @ ''\<newline>''
     @ ''Example:\<newline>''
     @ ''{\<newline>''
     @ ''    '' @ [CHR 0x22] @ ''thoughts'' @ [CHR 0x22] @ '': '' @ [CHR 0x22]
     @ ''I need to understand my environment. I will start by listing the files in ''
     @ ''the current directory.'' @ [CHR 0x22] @ '',\<newline>''
     @ ''    '' @ [CHR 0x22] @ ''command'' @ [CHR 0x22] @ '': {\<newline>''
     @ ''        '' @ [CHR 0x22] @ ''name'' @ [CHR 0x22] @ '': '' @ [CHR 0x22]
     @ ''list_directory'' @ [CHR 0x22] @ '',\<newline>''
     @ ''        '' @ [CHR 0x22] @ ''args'' @ [CHR 0x22] @ '': {'' @ [CHR 0x22] @ ''path''
     @ [CHR 0x22] @ '': '' @ [CHR 0x22] @ ''.'' @ [CHR 0x22] @ ''}\<newline>''
     @ ''    }\<newline>''
     @ ''}\<newline>''
     @ ''\<newline>''
     @ ''Begin. Your first action is crucial. Analyze your goal and your available ''
     @ ''tools. Formulate a plan.\<newline>''"

definition format_SYSTEM_PROMPT :: "string \<Rightarrow> string \<Rightarrow> string" where
  "format_SYSTEM_PROMPT goal tools_description =
    SYSTEM_PROMPT_head @ goal @ SYSTEM_PROMPT_middle @ tools_description @ SYSTEM_PROMPT_tail"

text \<open>
  \<^verbatim>\<open>_construct_prompt\<close>. The history is \<^verbatim>\<open>self.state.get("history", [])\<close>; the goal
  is \<^verbatim>\<open>self.main_goal\<close>. A history that is not a list is written as it is when it fits
  the limit (the loop is not entered); trimming one is outside the model.
\<close>

definition construct_prompt :: "event \<Rightarrow> world \<Rightarrow> string result" where
  "construct_prompt ev w =
    (case state w of
       JObj d \<Rightarrow>
         (case get_default d ''history'' (JArr []) of
            JArr full_history \<Rightarrow>
              Returns (format_SYSTEM_PROMPT (main_goal w) get_tools_description
                @ ''\<newline>\<newline>**History (Your previous actions):**\<newline>''
                @ history_str CONTEXT_WINDOW_TOKEN_LIMIT full_history)
          | v \<Rightarrow>
              if length (dumps (Some 2) v) > CONTEXT_WINDOW_TOKEN_LIMIT then Outside
              else
                Returns (format_SYSTEM_PROMPT (main_goal w) get_tools_description
                  @ ''\<newline>\<newline>**History (Your previous actions):**\<newline>''
                  @ dumps (Some 2) v))
     | v \<Rightarrow> Raises (AttributeError (wording ev (NoAttribute v ''get''))))"

section \<open>One iteration of \<^verbatim>\<open>run\<close>\<close>

text \<open>\<^verbatim>\<open>self.state["history"].append(turn)\<close>\<close>

definition append_turn :: "(fault \<Rightarrow> string) \<Rightarrow> json \<Rightarrow> json \<Rightarrow> json result" where
  "append_turn wd turn st =
    (case st of
       JObj d \<Rightarrow>
         (case dict_get d ''history'' of
            None \<Rightarrow> Raises (KeyError (wd (NoKey ''history'')))
          | Some (JArr h) \<Rightarrow> Returns (JObj (dict_set d ''history'' (JArr (h @ [turn]))))
          | Some v \<Rightarrow> Raises (AttributeError (wd (NoAttribute v ''append''))))
     | _ \<Rightarrow> Raises (TypeError (wd (NotSubscriptable st))))"

text \<open>
  Obtaining the response: from standard input in manual mode (no input ends the process
  with \<^verbatim>\<open>sys.exit(0)\<close>), from \<^verbatim>\<open>query_llm\<close> otherwise, whose argument
  \<^verbatim>\<open>self.state['history']\<close> is evaluated first.
\<close>

definition obtain_response :: "event \<Rightarrow> string \<Rightarrow> world \<Rightarrow> string result \<times> world" where
  "obtain_response ev prompt w =
    (if manual_mode w then
       (let w1 = print [Lit (''Paste the LLM'' @ [CHR 0x27] @ ''s JSON response below. ''
                               @ ''Press Ctrl+D (Unix) or Ctrl+Z+Enter (Windows) when done:'')]
              (print [Lit ''------------------------------------------------------------'']
              (print [Lit prompt]
              (print [Lit ''------------------------------------------------------------'']
              (print [Lit ''Copy it, generate a response, and paste the raw JSON back here.'']
              (print [Lit ''The prompt that would be sent to the LLM is printed below.'']
              (print [Lit ''--- MANUAL MODE ---''] w))))))
        in case stdin_read ev of
             Inl e \<Rightarrow> (Raises e, w1)
           | Inr llm_response_text \<Rightarrow>
               if llm_response_text = [] then
                 (Raises (SystemExit 0), print [Lit ''\<newline>No input received. Exiting.''] w1)
               else
                 (Returns llm_response_text,
                  print [Lit ''\<newline>--- Input received, processing... ---''] w1))
     else
       (let w1 = print [Lit ''Requesting next action from LLM...''] w
        in case state w of
             JObj d \<Rightarrow>
               (case dict_get d ''history'' of
                  None \<Rightarrow> (Raises (KeyError (wording ev (NoKey ''history''))), w1)
                | Some history \<Rightarrow> (query_llm ev prompt LLM_MODEL, w1))
           | v \<Rightarrow> (Raises (TypeError (wording ev (NotSubscriptable v))), w1)))"

text \<open>Truth of a value in \<^verbatim>\<open>if not command_name\<close>.\<close>

fun truthy :: "json \<Rightarrow> bool" where
  "truthy JNull = False"
| "truthy (JBool b) = b"
| "truthy (JInt i) = (i \<noteq> 0)"
| "truthy (JStr s) = (s \<noteq> [])"
| "truthy (JArr xs) = (xs \<noteq> [])"
| "truthy (JObj kvs) = (kvs \<noteq> [])"

definition unknown_command :: "string \<Rightarrow> string" where
  "unknown_command shown = ''Error: Unknown command '' @ [CHR 0x27] @ shown @ [CHR 0x27] @ ''.''"

definition malformed_response_error :: string where
  "malformed_response_error =
    ''Error: Malformed response. '' @ [CHR 0x27] @ ''command'' @ [CHR 0x27]
      @ '' key with '' @ [CHR 0x27] @ ''name'' @ [CHR 0x27] @ '' is required.''"

definition invalid_arguments :: "string \<Rightarrow> string \<Rightarrow> string" where
  "invalid_arguments name m =
    ''Error: Invalid arguments for command '' @ [CHR 0x27] @ name @ [CHR 0x27] @ '': '' @ m"

definition invalid_json_error :: "string \<Rightarrow> string" where
  "invalid_json_error llm_response_text =
    ''Error: LLM did not return valid JSON. Response:\<newline>'' @ llm_response_text"

text \<open>
  The texts of the errors of the loop are \<^const>\<open>unknown_command\<close>,
  \<^const>\<open>malformed_response_error\<close>, \<^const>\<open>invalid_arguments\<close> and
  \<^const>\<open>invalid_json_error\<close>. The choice of the result:
  \<^verbatim>\<open>
  if not command_name:
      result = "Error: Malformed response. 'command' key with 'name' is required."
  elif command_name not in self.tools:
      result = f"Error: Unknown command '{command_name}'."
  else:
      try:
          result = self.tools[command_name](**command_args)
      except TypeError as e:
          result = f"Error: Invalid arguments for command '{command_name}': {e}"
  \<close>
  Looking a list or a dictionary up in \<^verbatim>\<open>self.tools\<close> raises \<^verbatim>\<open>TypeError\<close> (they
  cannot be hashed), outside the inner \<^verbatim>\<open>try\<close>; a number or a boolean is not a key of
  the registry.
\<close>

definition choose_result :: "event \<Rightarrow> json \<Rightarrow> json \<Rightarrow> world \<Rightarrow> string result \<times> world" where
  "choose_result ev command_name command_args w =
    (if \<not> truthy command_name then
       (Returns malformed_response_error, w)
     else
       (case command_name of
          JStr name \<Rightarrow>
            (case map_of tools name of
               None \<Rightarrow> (Returns (unknown_command name), w)
             | Some func \<Rightarrow>
                 (case invoke ev name func command_args w of
                    (Raises (TypeError m), w1) \<Rightarrow> (Returns (invalid_arguments name m), w1)
                  | r \<Rightarrow> r))
        | JInt i \<Rightarrow> (Returns (unknown_command (dec_int i)), w)
        | JBool b \<Rightarrow> (Returns (unknown_command (if b then ''True'' else ''False'')), w)
        | JNull \<Rightarrow> (Returns (unknown_command ''None''), w)
        | v \<Rightarrow> (Raises (TypeError (wording ev (Unhashable v))), w)))"

text \<open>The four lines printed once the response has been read.\<close>

definition print_response :: "json \<Rightarrow> json \<Rightarrow> json \<Rightarrow> world \<Rightarrow> world" where
  "print_response thoughts command_name command_args w =
    print [Lit ''====================================================='']
      (print [Lit ''COMMAND: '', Str command_name, Lit ''('', Str command_args, Lit '')'']
      (print [Lit ''THOUGHTS: '', Str thoughts]
      (print [Lit ''\<newline>==================== LLM RESPONSE =====================''] w)))"

text \<open>
  \<^verbatim>\<open>
  print(f"\nCOMMAND RESULT:\n---\n{result}\n---")
  self.state["history"].append({"thoughts": thoughts, "command": command_spec, "result": result})
  self._save_state()
  \<close>
\<close>

definition record_turn :: "event \<Rightarrow> json \<Rightarrow> json \<Rightarrow> string \<Rightarrow> world \<Rightarrow> unit result \<times> world" where
  "record_turn ev thoughts command_spec result w =
    (let w1 = print [Lit ''\<newline>COMMAND RESULT:\<newline>---\<newline>'', Lit result, Lit ''\<newline>---''] w
     in case append_turn (wording ev)
               (JObj [(''thoughts'', thoughts), (''command'', command_spec), (''result'', JStr result)])
               (state w1) of
          Returns st \<Rightarrow> (Returns (), save_state (w1\<lparr>state := st\<rparr>))
        | Raises e \<Rightarrow> (Raises e, w1)
        | Outside \<Rightarrow> (Outside, w1))"

text \<open>
  The \<^verbatim>\<open>try\<close> block after \<^verbatim>\<open>json.loads\<close>, for a response that is a dictionary:
  \<^verbatim>\<open>
  thoughts = response_json.get("thoughts", "")
  command_spec = response_json.get("command", {})
  command_name = command_spec.get("name")
  command_args = command_spec.get("args", {})
  \<close>
  and then the choice of the result and its record. A command that is not a dictionary
  has no \<^verbatim>\<open>get\<close>.
\<close>

definition act_on_response :: "event \<Rightarrow> (string \<times> json) list \<Rightarrow> world \<Rightarrow> unit result \<times> world" where
  "act_on_response ev response_json w =
    (let thoughts = get_default response_json ''thoughts'' (JStr []);
         command_spec = get_default response_json ''command'' (JObj [])
     in case command_spec of
          JObj spec \<Rightarrow>
            (let command_name = get_default spec ''name'' JNull;
                 command_args = get_default spec ''args'' (JObj [])
             in case choose_result ev command_name command_args
                       (print_response thoughts command_name command_args w) of
                  (Returns result, w2) \<Rightarrow> record_turn ev thoughts command_spec result w2
                | (Raises e, w2) \<Rightarrow> (Raises e, w2)
                | (Outside, w2) \<Rightarrow> (Outside, w2))
        | v \<Rightarrow> (Raises (AttributeError (wording ev (NoAttribute v ''get''))), w))"

text \<open>
  The \<^verbatim>\<open>try\<close> block from \<^verbatim>\<open>json.loads\<close> to \<^verbatim>\<open>_save_state\<close>. A response that
  is not a dictionary has no \<^verbatim>\<open>get\<close>.
\<close>

definition process_response :: "event \<Rightarrow> string \<Rightarrow> world \<Rightarrow> unit result \<times> world" where
  "process_response ev llm_response_text w =
    (case loads llm_response_text of
       DecodeError \<Rightarrow> (Raises (JSONDecodeError (wording ev (InvalidJSON llm_response_text))), w)
     | Unsupported \<Rightarrow> (Outside, w)
     | Decoded (JObj response_json) \<Rightarrow> act_on_response ev response_json w
     | Decoded v \<Rightarrow> (Raises (AttributeError (wording ev (NoAttribute v ''get''))), w))"

text \<open>
  How an iteration ends: the loop goes on to the next iteration, the process exits with
  a code, an exception leaves \<^verbatim>\<open>run\<close>, or the run has left the model.
\<close>

datatype outcome = Continue world | Exited int world | Crashed exn world | Unmodelled

text \<open>
  The two handlers that record an error: the message is printed, the error turn is
  appended and the state is saved. An exception raised inside a handler leaves \<^verbatim>\<open>run\<close>.
\<close>

definition record_error :: "event \<Rightarrow> string \<Rightarrow> world \<Rightarrow> outcome" where
  "record_error ev error_msg w =
    (let w1 = print [Lit error_msg] w
     in case append_turn (wording ev) (JObj [(''error'', JStr error_msg)]) (state w1) of
          Returns st \<Rightarrow> Continue (save_state (w1\<lparr>state := st\<rparr>))
        | Raises e \<Rightarrow> Crashed e w1
        | Outside \<Rightarrow> Unmodelled)"

text \<open>
  The \<^verbatim>\<open>except\<close> clauses of the loop, in their order, for an exception raised in the
  \<^verbatim>\<open>try\<close> block when \<^verbatim>\<open>llm_response_text\<close> has the given value.
  \<^verbatim>\<open>SystemExit\<close> is caught by none of them.
\<close>

definition handle_exception :: "event \<Rightarrow> exn \<Rightarrow> string \<Rightarrow> world \<Rightarrow> outcome" where
  "handle_exception ev e llm_response_text w =
    (case e of
       JSONDecodeError m \<Rightarrow> record_error ev (invalid_json_error llm_response_text) w
     | RequestException m \<Rightarrow>
         Exited 1 (print [Lit (''Error: Could not connect to LLM API at '' @ LLM_API_URL
                      @ ''. Is it running? Details: '' @ m)] w)
     | KeyboardInterrupt \<Rightarrow>
         Exited 0 (save_state (print [Lit ''\<newline>\<newline>User interrupted. Saving state and exiting.''] w))
     | SystemExit code \<Rightarrow> Exited code w
     | _ \<Rightarrow> record_error ev (''An unexpected error occurred: '' @ str_exn e) w)"

text \<open>
  The body of \<^verbatim>\<open>while True\<close>. The prompt is built before the \<^verbatim>\<open>try\<close>;
  \<^verbatim>\<open>llm_response_text\<close> is the empty string until the response has been obtained.
\<close>

definition iteration :: "event \<Rightarrow> world \<Rightarrow> outcome" where
  "iteration ev w =
    (case construct_prompt ev w of
       Raises e \<Rightarrow> Crashed e w
     | Outside \<Rightarrow> Unmodelled
     | Returns prompt \<Rightarrow>
         (let w0 = print [Lit ''Goal: '', Lit (main_goal w)]
                    (print [Lit ''\<newline>==================== PROMPT TO LLM ====================''] w)
          in case obtain_response ev prompt w0 of
               (Raises e, w1) \<Rightarrow> handle_exception ev e [] w1
             | (Outside, w1) \<Rightarrow> Unmodelled
             | (Returns llm_response_text, w1) \<Rightarrow>
                 (case process_response ev llm_response_text w1 of
                    (Returns u, w2) \<Rightarrow> Continue w2
                  | (Raises e, w2) \<Rightarrow> handle_exception ev e llm_response_text w2
                  | (Outside, w2) \<Rightarrow> Unmodelled)))"

section \<open>The loop\<close>

text \<open>
  \<^verbatim>\<open>run\<close> on the answers of the surroundings to its successive iterations. The loop
  has no exit of its own: when the answers are used up the result is \<open>Continue\<close> with
  the world at the start of the next iteration.
\<close>

fun run :: "event list \<Rightarrow> world \<Rightarrow> outcome" where
  "run [] w = Continue w"
| "run (ev # evs) w =
    (case iteration ev w of
       Continue w' \<Rightarrow> run evs w'
     | Exited code w' \<Rightarrow> Exited code w'
     | Crashed e w' \<Rightarrow> Crashed e w'
     | Unmodelled \<Rightarrow> Unmodelled)"

text \<open>The number of iterations that \<^verbatim>\<open>run\<close> begins on these answers.\<close>

fun iterations :: "event list \<Rightarrow> world \<Rightarrow> nat" where
  "iterations [] w = 0"
| "iterations (ev # evs) w =
    (case iteration ev w of Continue w' \<Rightarrow> Suc (iterations evs w') | _ \<Rightarrow> 1)"

section \<open>Notions used in the statements\<close>

text \<open>A field of the state (or of any dictionary); a value that is no dictionary has none.\<close>

fun field :: "json \<Rightarrow> string \<Rightarrow> json option" where
  "field (JObj d) k = dict_get d k"
| "field v k = None"

text \<open>The two shapes of a turn that the loop appends.\<close>

definition normal_turn :: "json \<Rightarrow> json \<Rightarrow> string \<Rightarrow> json" where
  "normal_turn thoughts command_spec result =
    JObj [(''thoughts'', thoughts), (''command'', command_spec), (''result'', JStr result)]"

definition error_turn :: "string \<Rightarrow> json" where
  "error_turn error_msg = JObj [(''error'', JStr error_msg)]"

text \<open>The second world is the first one after some more lines have been printed.\<close>

definition printed_more :: "world \<Rightarrow> world \<Rightarrow> bool" where
  "printed_more w w' = (\<exists>ls. w' = w\<lparr>stdout := stdout w @ ls\<rparr>)"

text \<open>
  The iteration obtains the text as the response: the prompt can be built, and the text
  is read from standard input (not empty) in manual mode, or returned by
  \<^verbatim>\<open>query_llm\<close> otherwise.
\<close>

definition responds :: "event \<Rightarrow> world \<Rightarrow> string \<Rightarrow> bool" where
  "responds ev w text =
    (case construct_prompt ev w of
       Returns prompt \<Rightarrow>
         if manual_mode w then stdin_read ev = Inr text \<and> text \<noteq> []
         else field (state w) ''history'' \<noteq> None \<and> query_llm ev prompt LLM_MODEL = Returns text
     | _ \<Rightarrow> False)"

text \<open>The history of the state with which the loop goes on, if it does.\<close>

fun history_after :: "outcome \<Rightarrow> json option" where
  "history_after (Continue w) = field (state w) ''history''"
| "history_after out = None"

text \<open>
  The failures of a dispatch from which the loop recovers, each with the text that
  reports it: the name is not in the registry; the arguments are no dictionary or do not
  bind to the parameters of the function; the operation inside the \<^verbatim>\<open>try\<close> of the
  tool raises an \<^verbatim>\<open>Exception\<close>.
\<close>

fun raised_in_tool :: "event \<Rightarrow> handler \<Rightarrow> (string \<Rightarrow> json) \<Rightarrow> exn \<Rightarrow> bool" where
  "raised_in_tool ev ExecuteShell arg e = (subprocess_run ev (arg ''command'') = Inl e)"
| "raised_in_tool ev ReadFile arg e = (read_text ev (arg ''path'') = Inl e)"
| "raised_in_tool ev WriteFile arg e =
    (case arg ''path'' of
       JStr p \<Rightarrow> write_text ev p (arg ''content'') = Inl e
     | v \<Rightarrow> e = TypeError (wording ev (NotAPath v)))"
| "raised_in_tool ev ListDirectory arg e = (listdir ev (arg ''path'') = Inl e)"
| "raised_in_tool ev AskLLM arg e =
    (response_text (wording ev) (http_post_tool ev (arg ''question'') (arg ''model'')) = Raises e)"
| "raised_in_tool ev Finish arg e = False"

fun error_prefix :: "handler \<Rightarrow> string" where
  "error_prefix ExecuteShell = ''Error executing shell command: ''"
| "error_prefix ReadFile = ''Error reading file: ''"
| "error_prefix WriteFile = ''Error writing file: ''"
| "error_prefix ListDirectory = ''Error listing directory: ''"
| "error_prefix AskLLM = ''Error querying LLM: ''"
| "error_prefix Finish = []"

inductive dispatch_failure :: "event \<Rightarrow> string \<Rightarrow> json \<Rightarrow> string \<Rightarrow> bool" for ev where
  unknown_tool:
    "map_of tools name = None \<Longrightarrow> dispatch_failure ev name args (unknown_command name)"
| no_mapping:
    "map_of tools name = Some func \<Longrightarrow> \<forall>kw. args \<noteq> JObj kw \<Longrightarrow>
     dispatch_failure ev name args (invalid_arguments name (wording ev (NotAMapping name args)))"
| bad_arguments:
    "map_of tools name = Some func \<Longrightarrow> \<not> binds func kw \<Longrightarrow>
     dispatch_failure ev name (JObj kw) (invalid_arguments name (wording ev (BadArguments name kw)))"
| tool_exception:
    "map_of tools name = Some func \<Longrightarrow> binds func kw \<Longrightarrow>
     raised_in_tool ev (handler func) (argument func kw) e \<Longrightarrow> is_Exception e \<Longrightarrow>
     dispatch_failure ev name (JObj kw) (error_prefix (handler func) @ str_exn e)"

text \<open>
  The turns that an iteration can append: an error turn, or a normal turn whose result
  was chosen for the name and the arguments of its command.
\<close>

inductive recordable :: "event \<Rightarrow> json \<Rightarrow> bool" for ev where
  error: "recordable ev (error_turn msg)"
| normal:
    "choose_result ev (get_default spec ''name'' JNull) (get_default spec ''args'' (JObj [])) w
       = (Returns result, w') \<Longrightarrow>
     recordable ev (normal_turn thoughts (JObj spec) result)"

text \<open>The world in which a run has ended or goes on.\<close>

fun world_of :: "outcome \<Rightarrow> world option" where
  "world_of (Continue w) = Some w"
| "world_of (Exited code w) = Some w"
| "world_of (Crashed e w) = Some w"
| "world_of Unmodelled = None"

text \<open>
  What every iteration keeps: the goal of the agent, the goal in the state, and a state
  file that is the given one or the state as last saved.
\<close>

definition keeps_goal :: "string \<Rightarrow> json option \<Rightarrow> string option \<Rightarrow> world \<Rightarrow> bool" where
  "keeps_goal goal persisted saved w =
    (main_goal w = goal \<and> field (state w) ''main_goal'' = persisted
     \<and> (state_file w = saved \<or> state_file w = Some (dumps (Some 4) (state w))))"

text \<open>
  Of an entry of the registry: the keys of the dictionary that the catalog writes after
  \<^verbatim>\<open>Args:\<close>, and the names of the parameters that the function declares.
\<close>

definition catalog_keys :: "string \<times> tool \<Rightarrow> string list" where
  "catalog_keys entry = map fst (annotations (snd entry))"

definition declared_arguments :: "string \<times> tool \<Rightarrow> string list" where
  "declared_arguments entry = map fst (params (snd entry))"

text \<open>
  For the proof that the decoder reads back what the encoder writes: the tokens of a
  value; a scan that puts given tokens before those of the rest of the text; and what may
  follow a value in the text of the encoder (the end, a comma, a closing bracket or
  brace, a line break).
\<close>

fun tokens :: "json \<Rightarrow> token list" where
  "tokens JNull = [TNull]"
| "tokens (JBool b) = [TBool b]"
| "tokens (JInt i) = [TInt i]"
| "tokens (JStr s) = [TStr s]"
| "tokens (JArr xs) = LBracket # join [Comma] (map tokens xs) @ [RBracket]"
| "tokens (JObj kvs) =
    LBrace # join [Comma] (map (\<lambda>kv. TStr (fst kv) # Colon # tokens (snd kv)) kvs) @ [RBrace]"

definition before :: "token list \<Rightarrow> token list scan \<Rightarrow> token list scan" where
  "before ts r = scan_map ((@) ts) r"

definition delimited :: "string \<Rightarrow> bool" where
  "delimited rest = (rest = [] \<or> hd rest \<in> {CHR '','', CHR '']'', CHR ''}'', CHR 0x0A})"

text \<open>A state with one turn of each shape, for the example of saving and loading.\<close>

definition example_state :: json where
  \<open>example_state =
    JObj [(''main_goal'', JStr ''list files''),
          (''history'',
             JArr [normal_turn (JStr ''look "around" first'')
                     (JObj [(''name'', JStr ''list_directory''),
                            (''args'', JObj [(''path'', JStr ''.''), (''depth'', JInt (- 2))])])
                     ''["a.txt", "b.txt"]'',
                   error_turn (''no JSON:'' @ [CHR 0x0A, CHR 0xE9, CHR 0x5C] @ ''{}''),
                   JObj [(''done'', JBool True), (''next'', JNull), (''empty'', JArr [])]])]\<close>

text \<open>
  Surroundings and a freshly started agent for the examples: the model (or the user, in
  manual mode) answers with the given text, reading a file fails, listing a directory
  gives two names.
\<close>

definition example_event :: "string \<Rightarrow> event" where
  "example_event input =
    \<lparr>stdin_read = Inr input,
     http_post = (\<lambda>prompt model. Inr (JObj [(''response'', JStr input)])),
     http_post_tool = (\<lambda>question model. Inl (OtherException ''connection refused'')),
     subprocess_run = (\<lambda>command. Inr (''out'', ''err'')),
     read_text = (\<lambda>path. Inl (OtherException ''No such file or directory'')),
     write_text = (\<lambda>path content. Inr ()),
     listdir = (\<lambda>path. Inr [''a.txt'', ''b.txt'']),
     wording = (\<lambda>f. ''message'')\<rparr>"

definition example_world :: world where
  "example_world =
    \<lparr>main_goal = ''list files'', manual_mode = True,
     state = JObj [(''main_goal'', JStr ''list files''), (''history'', JArr [])],
     state_file = None, stdout = []\<rparr>"

text \<open>Responses for the examples.\<close>

definition finish_response :: string where
  \<open>finish_response =
    ''{"thoughts": "all done", "command": {"name": "finish", "args": {"result": "done"}}}''\<close>

definition missing_command_response :: string where
  \<open>missing_command_response = ''{"thoughts": "only thoughts"}''\<close>

definition unknown_tool_response :: string where
  \<open>unknown_tool_response = ''{"thoughts": "try", "command": {"name": "fly", "args": {}}}''\<close>

definition bad_arguments_response :: string where
  \<open>bad_arguments_response =
    ''{"thoughts": "try", "command": {"name": "read_file", "args": {"file": "notes.txt"}}}''\<close>

definition failing_tool_response :: string where
  \<open>failing_tool_response =
    ''{"thoughts": "try", "command": {"name": "read_file", "args": {"path": "notes.txt"}}}''\<close>

definition finish_without_result :: string where
  \<open>finish_without_result = ''{"thoughts": "stop", "command": {"name": "finish", "args": {}}}''\<close>

text \<open>A state file left by an earlier run with another goal.\<close>

definition stale_state_file :: string where
  \<open>stale_state_file = ''{"main_goal": "old goal", "history": []}''\<close>

section \<open>Properties of the trimming loop\<close>

lemma trim_history_suffix: "suffix (trim_history budget h) h"
proof (induction budget h rule: trim_history.induct)
  case (1 budget h)
  show ?case
  proof (cases "length (dumps (Some 2) (JArr h)) > budget \<and> length h > 1")
    case True
    then have "trim_history budget h = trim_history budget (tl h)"
      by (subst trim_history.simps) simp
    moreover have "suffix (trim_history budget (tl h)) (tl h)"
      using 1 True by simp
    moreover have "suffix (tl h) h"
      by (simp add: suffix_tl)
    ultimately show ?thesis
      using suffix_order.trans by metis
  next
    case False
    then have "trim_history budget h = h"
      by (subst trim_history.simps) auto
    then show ?thesis by simp
  qed
qed

lemma trim_history_fits:
  "length (dumps (Some 2) (JArr (trim_history budget h))) \<le> budget
     \<or> length (trim_history budget h) \<le> 1"
proof (induction budget h rule: trim_history.induct)
  case (1 budget h)
  show ?case
  proof (cases "length (dumps (Some 2) (JArr h)) > budget \<and> length h > 1")
    case True
    then have "trim_history budget h = trim_history budget (tl h)"
      by (subst trim_history.simps) simp
    with 1 True show ?thesis by simp
  next
    case False
    then have "trim_history budget h = h"
      by (subst trim_history.simps) auto
    with False show ?thesis by auto
  qed
qed

lemma trim_history_nonempty: "h \<noteq> [] \<Longrightarrow> trim_history budget h \<noteq> []"
proof (induction budget h rule: trim_history.induct)
  case (1 budget h)
  show ?case
  proof (cases "length (dumps (Some 2) (JArr h)) > budget \<and> length h > 1")
    case True
    then have eq: "trim_history budget h = trim_history budget (tl h)"
      by (subst trim_history.simps) simp
    from True have "tl h \<noteq> []"
      by (cases h) auto
    with 1 True eq show ?thesis by simp
  next
    case False
    then have "trim_history budget h = h"
      by (subst trim_history.simps) auto
    with 1 show ?thesis by simp
  qed
qed

lemma trim_history_Nil: "trim_history budget [] = []"
  by (subst trim_history.simps) simp

lemma dumps_empty_list: "dumps (Some 2) (JArr []) = ''[]''"
  by (simp add: dumps_def)

lemma trim_history_last: "h \<noteq> [] \<Longrightarrow> last (trim_history budget h) = last h"
proof -
  assume ne: "h \<noteq> []"
  obtain older where h: "h = older @ trim_history budget h"
    using trim_history_suffix [of budget h] by (auto simp: suffix_def)
  have "last (older @ trim_history budget h) = last (trim_history budget h)"
    using trim_history_nonempty [OF ne] by simp
  with h show ?thesis by simp
qed




text \<open>
  C7. For every history and budget, the trimmed history is a suffix of the original:
  the original is some run of older turns followed by exactly the trimmed history, so the
  turns kept are the most recent ones, contiguous, in their order, and unchanged.
\<close>

theorem trim_history_is_suffix:
  "\<exists>older. h = older @ trim_history budget h"
  using trim_history_suffix [of budget h] by (auto simp: suffix_def)

section \<open>What an iteration changes\<close>

lemma printed_more_refl: "printed_more w w"
  by (auto simp: printed_more_def intro: exI [of _ "[]"])

lemma printed_more_print: "printed_more w w' \<Longrightarrow> printed_more w (print l w')"
  by (auto simp: printed_more_def print_def)

lemma printed_more_trans: "printed_more w w' \<Longrightarrow> printed_more w' w'' \<Longrightarrow> printed_more w w''"
  by (auto simp: printed_more_def)

lemma printed_more_fields:
  "printed_more w w' \<Longrightarrow>
    main_goal w' = main_goal w \<and> manual_mode w' = manual_mode w \<and> state w' = state w
    \<and> state_file w' = state_file w"
  by (auto simp: printed_more_def)

lemma print_fields:
  "state (print l w) = state w" "main_goal (print l w) = main_goal w"
  "manual_mode (print l w) = manual_mode w" "state_file (print l w) = state_file w"
  "stdout (print l w) = stdout w @ [l]"
  by (simp_all add: print_def)

lemmas printed_intros = printed_more_refl printed_more_print

lemma finish_printed: "printed_more w (snd (finish result w))"
  by (simp add: finish_def printed_intros)

lemma ask_llm_printed: "printed_more w (snd (ask_llm ev question model w))"
  by (auto simp: ask_llm_def Let_def printed_intros split: result.splits)

lemma call_tool_printed: "printed_more w (snd (call_tool ev h arg w))"
  by (cases h) (simp_all add: call_tool_def printed_intros finish_printed ask_llm_printed)

lemma invoke_printed: "printed_more w (snd (invoke ev name func args w))"
  by (auto simp: invoke_def printed_intros call_tool_printed split: json.splits)

lemma choose_result_printed: "printed_more w (snd (choose_result ev name args w))"
proof -
  have "printed_more w (snd (case invoke ev n func args w of
            (Raises (TypeError m), w1) \<Rightarrow> (Returns (f m), w1) | r \<Rightarrow> r))" for n func f
    using invoke_printed [of w ev n func args]
    by (cases "invoke ev n func args w") (auto split: result.splits exn.splits)
  then show ?thesis
    by (auto simp: choose_result_def printed_intros split: json.splits option.splits)
qed

lemma obtain_response_printed: "printed_more w (snd (obtain_response ev prompt w))"
  by (auto simp: obtain_response_def Let_def printed_intros split: sum.splits json.splits option.splits)

lemma dict_get_dict_set:
  "dict_get (dict_set d k v) k' = (if k' = k then Some v else dict_get d k')"
  by (induction d) (auto simp: dict_get_def)

lemma keys_dict_set:
  "dict_get d k = Some old \<Longrightarrow> map fst (dict_set d k v) = map fst d"
  by (induction d) (auto simp: dict_get_def split: if_splits)

lemma append_turn_Returns:
  "append_turn wd turn st = Returns st' \<longleftrightarrow>
    (\<exists>d h. st = JObj d \<and> dict_get d ''history'' = Some (JArr h)
       \<and> st' = JObj (dict_set d ''history'' (JArr (h @ [turn]))))"
  by (auto simp: append_turn_def split: json.splits option.splits)

lemma append_turn_not_Outside: "append_turn wd turn st \<noteq> Outside"
  by (auto simp: append_turn_def split: json.splits option.splits)

lemma record_error_Continue:
  "record_error ev msg w = Continue w' \<Longrightarrow>
    \<exists>st'. append_turn (wording ev) (JObj [(''error'', JStr msg)]) (state w) = Returns st'
      \<and> w' = save_state ((print [Lit msg] w)\<lparr>state := st'\<rparr>)"
  by (auto simp: record_error_def Let_def print_def split: result.splits)

lemma record_turn_cases:
  "record_turn ev thoughts command_spec result w =
    (case append_turn (wording ev) (normal_turn thoughts command_spec result) (state w) of
       Returns st \<Rightarrow>
         (Returns (),
          save_state ((print [Lit ''\<newline>COMMAND RESULT:\<newline>---\<newline>'', Lit result, Lit ''\<newline>---''] w)\<lparr>state := st\<rparr>))
     | Raises e \<Rightarrow> (Raises e, print [Lit ''\<newline>COMMAND RESULT:\<newline>---\<newline>'', Lit result, Lit ''\<newline>---''] w)
     | Outside \<Rightarrow> (Outside, print [Lit ''\<newline>COMMAND RESULT:\<newline>---\<newline>'', Lit result, Lit ''\<newline>---''] w))"
  by (simp add: record_turn_def Let_def normal_turn_def print_fields)

lemma record_turn_Returns:
  assumes "record_turn ev thoughts command_spec result w = (Returns u, w')"
  shows "\<exists>st' w1. printed_more w w1
      \<and> append_turn (wording ev) (normal_turn thoughts command_spec result) (state w) = Returns st'
      \<and> w' = save_state (w1\<lparr>state := st'\<rparr>)"
  using assms unfolding record_turn_cases
  by (auto split: result.splits intro: printed_intros)

lemma act_on_response_Returns:
  assumes "act_on_response ev resp w = (Returns u, w')"
  shows "\<exists>turn st' w3. printed_more w w3 \<and> recordable ev turn
      \<and> append_turn (wording ev) turn (state w) = Returns st'
      \<and> w' = save_state (w3\<lparr>state := st'\<rparr>)"
proof -
  define thoughts where "thoughts = get_default resp ''thoughts'' (JStr [])"
  define command_spec where "command_spec = get_default resp ''command'' (JObj [])"
  from assms obtain spec where spec: "command_spec = JObj spec"
    by (cases command_spec) (simp_all add: act_on_response_def Let_def command_spec_def)
  define command_name where "command_name = get_default spec ''name'' JNull"
  define command_args where "command_args = get_default spec ''args'' (JObj [])"
  define w1 where "w1 = print_response thoughts command_name command_args w"
  have p1: "printed_more w w1"
    by (simp add: w1_def print_response_def printed_intros)
  obtain r w2 where cr: "choose_result ev command_name command_args w1 = (r, w2)"
    by (cases "choose_result ev command_name command_args w1")
  have p2: "printed_more w1 w2"
    using choose_result_printed [of w1 ev command_name command_args] cr by simp
  have eq: "act_on_response ev resp w =
      (case (r, w2) of
         (Returns result, w2) \<Rightarrow> record_turn ev thoughts command_spec result w2
       | (Raises e, w2) \<Rightarrow> (Raises e, w2)
       | (Outside, w2) \<Rightarrow> (Outside, w2))"
    using spec cr
    by (cases r)
       (simp_all add: act_on_response_def Let_def command_spec_def [symmetric]
          thoughts_def [symmetric] command_name_def [symmetric] command_args_def [symmetric]
          w1_def [symmetric])
  from assms eq obtain result where r: "r = Returns result"
    and rt: "record_turn ev thoughts command_spec result w2 = (Returns u, w')"
    by (cases r) auto
  from record_turn_Returns [OF rt] obtain st' w3 where
    "printed_more w2 w3"
    "append_turn (wording ev) (normal_turn thoughts command_spec result) (state w2) = Returns st'"
    "w' = save_state (w3\<lparr>state := st'\<rparr>)"
    by blast
  moreover have "printed_more w w2"
    using p1 p2 by (rule printed_more_trans)
  moreover have "recordable ev (normal_turn thoughts command_spec result)"
    unfolding spec using cr r
    by (auto simp: command_name_def command_args_def intro: recordable.normal)
  ultimately show ?thesis
    using printed_more_fields [of w w2] printed_more_trans [of w w2 w3] by auto
qed

lemma record_turn_printed: "fst (record_turn ev t c r w) \<noteq> Returns u \<Longrightarrow> printed_more w (snd (record_turn ev t c r w))"
  unfolding record_turn_cases by (auto split: result.splits intro: printed_intros)

lemma act_on_response_printed:
  assumes "act_on_response ev resp w = (r, w')" and "r \<noteq> Returns ()"
  shows "printed_more w w'"
proof -
  define thoughts where "thoughts = get_default resp ''thoughts'' (JStr [])"
  define command_spec where "command_spec = get_default resp ''command'' (JObj [])"
  show ?thesis
  proof (cases command_spec)
    case (JObj spec)
    define command_name where "command_name = get_default spec ''name'' JNull"
    define command_args where "command_args = get_default spec ''args'' (JObj [])"
    define w1 where "w1 = print_response thoughts command_name command_args w"
    have p1: "printed_more w w1"
      by (simp add: w1_def print_response_def printed_intros)
    obtain r1 w2 where cr: "choose_result ev command_name command_args w1 = (r1, w2)"
      by (cases "choose_result ev command_name command_args w1")
    have p2: "printed_more w w2"
      using choose_result_printed [of w1 ev command_name command_args] cr p1
      by (auto intro: printed_more_trans)
    have eq: "act_on_response ev resp w =
        (case (r1, w2) of
           (Returns result, w2) \<Rightarrow> record_turn ev thoughts command_spec result w2
         | (Raises e, w2) \<Rightarrow> (Raises e, w2)
         | (Outside, w2) \<Rightarrow> (Outside, w2))"
      using JObj cr
      by (cases r1)
         (simp_all add: act_on_response_def Let_def command_spec_def [symmetric]
            thoughts_def [symmetric] command_name_def [symmetric] command_args_def [symmetric]
            w1_def [symmetric])
    show ?thesis
    proof (cases r1)
      case (Returns result)
      with eq assms have "record_turn ev thoughts command_spec result w2 = (r, w')" by simp
      with record_turn_printed [of ev thoughts command_spec result w2 "()"] assms(2)
      have "printed_more w2 w'" by auto
      with p2 show ?thesis by (rule printed_more_trans)
    qed (use eq assms p2 in auto)
  qed (use assms in \<open>auto simp: act_on_response_def Let_def command_spec_def [symmetric] printed_intros\<close>)
qed

lemma process_response_printed:
  assumes "process_response ev t w = (r, w')" and "r \<noteq> Returns ()"
  shows "printed_more w w'"
  using assms act_on_response_printed [of ev _ w r w']
  by (auto simp: process_response_def printed_intros split: decoded.splits json.splits)

lemma process_response_Returns:
  assumes "process_response ev text w = (Returns u, w')"
  shows "\<exists>turn st' w3. printed_more w w3 \<and> recordable ev turn
      \<and> append_turn (wording ev) turn (state w) = Returns st'
      \<and> w' = save_state (w3\<lparr>state := st'\<rparr>)"
proof -
  from assms obtain resp where "act_on_response ev resp w = (Returns u, w')"
    by (auto simp: process_response_def split: decoded.splits json.splits)
  then show ?thesis by (rule act_on_response_Returns)
qed

lemma handle_exception_Continue:
  assumes "handle_exception ev e text w = Continue w'"
  shows "\<exists>turn st' w3. printed_more w w3 \<and> recordable ev turn
      \<and> append_turn (wording ev) turn (state w) = Returns st'
      \<and> w' = save_state (w3\<lparr>state := st'\<rparr>)"
proof -
  from assms obtain msg where "record_error ev msg w = Continue w'"
    by (cases e) (auto simp: handle_exception_def)
  from record_error_Continue [OF this] obtain st' where
    "append_turn (wording ev) (JObj [(''error'', JStr msg)]) (state w) = Returns st'"
    "w' = save_state ((print [Lit msg] w)\<lparr>state := st'\<rparr>)"
    by blast
  moreover have "printed_more w (print [Lit msg] w)"
    by (simp add: printed_intros)
  moreover have "recordable ev (JObj [(''error'', JStr msg)])"
    using recordable.error [of ev msg] by (simp add: error_turn_def)
  ultimately show ?thesis by blast
qed

lemma iteration_Continue:
  assumes "iteration ev w = Continue w'"
  shows "\<exists>turn st' w3. printed_more w w3 \<and> recordable ev turn
      \<and> append_turn (wording ev) turn (state w) = Returns st'
      \<and> w' = save_state (w3\<lparr>state := st'\<rparr>)"
proof -
  from assms obtain prompt where prompt: "construct_prompt ev w = Returns prompt"
    by (cases "construct_prompt ev w") (auto simp: iteration_def)
  define w0 where "w0 = print [Lit ''Goal: '', Lit (main_goal w)]
      (print [Lit ''\<newline>==================== PROMPT TO LLM ===================='']  w)"
  have p0: "printed_more w w0"
    by (simp add: w0_def printed_intros)
  obtain r w1 where ob: "obtain_response ev prompt w0 = (r, w1)"
    by (cases "obtain_response ev prompt w0")
  have p1: "printed_more w w1"
    using obtain_response_printed [of w0 ev prompt] ob p0 by (auto intro: printed_more_trans)
  have eq: "iteration ev w =
      (case (r, w1) of
         (Raises e, w1) \<Rightarrow> handle_exception ev e [] w1
       | (Outside, w1) \<Rightarrow> Unmodelled
       | (Returns t, w1) \<Rightarrow>
           (case process_response ev t w1 of
              (Returns u, w2) \<Rightarrow> Continue w2
            | (Raises e, w2) \<Rightarrow> handle_exception ev e t w2
            | (Outside, w2) \<Rightarrow> Unmodelled))"
    using prompt ob by (simp add: iteration_def Let_def w0_def [symmetric])
  have "\<exists>turn st' w3. printed_more w1 w3 \<and> recordable ev turn
      \<and> append_turn (wording ev) turn (state w1) = Returns st'
      \<and> w' = save_state (w3\<lparr>state := st'\<rparr>)"
  proof (cases r)
    case (Returns t)
    note rt = this
    obtain r2 w2 where pr: "process_response ev t w1 = (r2, w2)"
      by (cases "process_response ev t w1")
    show ?thesis
    proof (cases r2)
      case (Returns u)
      with assms eq rt pr have "w2 = w'" by simp
      with pr Returns process_response_Returns [of ev t w1 u w'] show ?thesis by simp
    next
      case (Raises e)
      with assms eq rt pr have h: "handle_exception ev e t w2 = Continue w'"
        by simp
      have "printed_more w1 w2"
        using process_response_printed [OF pr] Raises by simp
      with handle_exception_Continue [OF h] show ?thesis
        using printed_more_fields [of w1 w2] printed_more_trans [of w1 w2] by metis
    next
      case Outside
      with assms eq rt pr show ?thesis by simp
    qed
  next
    case (Raises e)
    with assms eq have "handle_exception ev e [] w1 = Continue w'" by simp
    then show ?thesis by (rule handle_exception_Continue)
  next
    case Outside
    with assms eq show ?thesis by simp
  qed
  with p1 show ?thesis
    using printed_more_fields [of w w1] printed_more_trans [of w w1] by metis
qed

lemma field_append_turn:
  assumes "append_turn wd turn st = Returns st'"
  shows "\<exists>d d' h. st = JObj d \<and> st' = JObj d' \<and> map fst d' = map fst d
    \<and> field st ''history'' = Some (JArr h)
    \<and> field st' ''history'' = Some (JArr (h @ [turn]))
    \<and> (\<forall>k. k \<noteq> ''history'' \<longrightarrow> field st' k = field st k)"
  using assms
  by (auto simp: append_turn_Returns dict_get_dict_set keys_dict_set)



section \<open>Following an iteration\<close>

lemma construct_prompt_printed:
  assumes "printed_more w w'"
  shows "construct_prompt ev w' = construct_prompt ev w"
proof -
  from assms obtain ls where "w' = w\<lparr>stdout := stdout w @ ls\<rparr>"
    by (auto simp: printed_more_def)
  then show ?thesis
    by (simp add: construct_prompt_def split: json.splits)
qed

lemma obtain_response_responds:
  assumes "construct_prompt ev w = Returns prompt" and "responds ev w t" and "printed_more w w0"
  shows "\<exists>w1. printed_more w w1 \<and> obtain_response ev prompt w0 = (Returns t, w1)"
proof (cases "manual_mode w")
  case True
  with assms have "stdin_read ev = Inr t" "t \<noteq> []" "manual_mode w0"
    by (auto simp: responds_def printed_more_fields)
  then have "obtain_response ev prompt w0 = (Returns t, snd (obtain_response ev prompt w0))"
    by (simp add: obtain_response_def Let_def)
  moreover have "printed_more w (snd (obtain_response ev prompt w0))"
    using assms(3) obtain_response_printed by (rule printed_more_trans)
  ultimately show ?thesis by blast
next
  case False
  with assms obtain d v where "state w0 = JObj d" "dict_get d ''history'' = Some v"
    "query_llm ev prompt LLM_MODEL = Returns t" "\<not> manual_mode w0"
    by (cases "state w") (auto simp: responds_def printed_more_fields)
  then have "obtain_response ev prompt w0 = (Returns t, snd (obtain_response ev prompt w0))"
    by (simp add: obtain_response_def Let_def)
  moreover have "printed_more w (snd (obtain_response ev prompt w0))"
    using assms(3) obtain_response_printed by (rule printed_more_trans)
  ultimately show ?thesis by blast
qed

lemma iteration_responds:
  assumes "responds ev w t"
  shows "\<exists>w1. printed_more w w1 \<and> iteration ev w =
      (case process_response ev t w1 of
         (Returns u, w2) \<Rightarrow> Continue w2
       | (Raises e, w2) \<Rightarrow> handle_exception ev e t w2
       | (Outside, w2) \<Rightarrow> Unmodelled)"
proof -
  from assms obtain prompt where prompt: "construct_prompt ev w = Returns prompt"
    by (cases "construct_prompt ev w") (auto simp: responds_def)
  define w0 where "w0 = print [Lit ''Goal: '', Lit (main_goal w)]
      (print [Lit ''\<newline>==================== PROMPT TO LLM ===================='']  w)"
  have "printed_more w w0"
    by (simp add: w0_def printed_intros)
  from obtain_response_responds [OF prompt assms this] obtain w1 where
    w1: "printed_more w w1" "obtain_response ev prompt w0 = (Returns t, w1)"
    by blast
  then have "iteration ev w =
      (case process_response ev t w1 of
         (Returns u, w2) \<Rightarrow> Continue w2
       | (Raises e, w2) \<Rightarrow> handle_exception ev e t w2
       | (Outside, w2) \<Rightarrow> Unmodelled)"
    using prompt by (simp add: iteration_def Let_def w0_def [symmetric])
  with w1 show ?thesis by blast
qed

lemma act_on_response_command:
  assumes "get_default response_json ''command'' (JObj []) = JObj spec"
  shows "act_on_response ev response_json w =
    (case choose_result ev (get_default spec ''name'' JNull) (get_default spec ''args'' (JObj []))
            (print_response (get_default response_json ''thoughts'' (JStr []))
               (get_default spec ''name'' JNull) (get_default spec ''args'' (JObj [])) w) of
       (Returns result, w2) \<Rightarrow>
         record_turn ev (get_default response_json ''thoughts'' (JStr [])) (JObj spec) result w2
     | (Raises e, w2) \<Rightarrow> (Raises e, w2)
     | (Outside, w2) \<Rightarrow> (Outside, w2))"
  using assms by (simp add: act_on_response_def Let_def)

lemma print_response_printed: "printed_more w (print_response t n a w)"
  by (simp add: print_response_def printed_intros)

lemma choose_result_finish:
  assumes "map_of tools ''finish'' = Some func" and "binds func kw"
  shows "choose_result ev (JStr ''finish'') (JObj kw) w =
    (Raises (SystemExit 0),
     print [Lit ''Final Result: '', Str (argument func kw ''result'')]
       (print [Lit ''--- AGENT FINISHED ---''] w))"
proof -
  from assms(1) have h: "handler func = Finish"
    by (auto simp: tools_def)
  show ?thesis
    using assms h by (simp add: choose_result_def invoke_def call_tool_def finish_def)
qed

lemma iteration_finish:
  assumes "responds ev w t"
    and "loads t = Decoded (JObj response_json)"
    and "get_default response_json ''command'' (JObj []) = JObj spec"
    and "get_default spec ''name'' JNull = JStr ''finish''"
    and "get_default spec ''args'' (JObj []) = JObj kw"
    and "map_of tools ''finish'' = Some func"
    and "binds func kw"
  shows "\<exists>w1. printed_more w w1 \<and> iteration ev w =
      Exited 0 (print [Lit ''Final Result: '', Str (argument func kw ''result'')]
        (print [Lit ''--- AGENT FINISHED ---''] w1))"
proof -
  from iteration_responds [OF assms(1)] obtain w1 where
    p1: "printed_more w w1"
    and it: "iteration ev w =
      (case process_response ev t w1 of
         (Returns u, w2) \<Rightarrow> Continue w2
       | (Raises e, w2) \<Rightarrow> handle_exception ev e t w2
       | (Outside, w2) \<Rightarrow> Unmodelled)"
    by blast
  define w2 where "w2 = print_response (get_default response_json ''thoughts'' (JStr []))
      (JStr ''finish'') (JObj kw) w1"
  have p2: "printed_more w w2"
    using p1 print_response_printed unfolding w2_def by (rule printed_more_trans)
  have "process_response ev t w1 =
      (Raises (SystemExit 0),
       print [Lit ''Final Result: '', Str (argument func kw ''result'')]
         (print [Lit ''--- AGENT FINISHED ---''] w2))"
    using assms(2-5) choose_result_finish [OF assms(6,7)]
    by (simp add: process_response_def act_on_response_command w2_def)
  with it have "iteration ev w =
      Exited 0 (print [Lit ''Final Result: '', Str (argument func kw ''result'')]
        (print [Lit ''--- AGENT FINISHED ---''] w2))"
    by (simp add: handle_exception_def)
  with p2 show ?thesis by blast
qed

lemma call_tool_raised:
  assumes "raised_in_tool ev h arg e" and "is_Exception e"
  shows "\<exists>w2. printed_more w w2 \<and> call_tool ev h arg w = (Returns (error_prefix h @ str_exn e), w2)"
proof (cases h)
  case ExecuteShell
  with assms show ?thesis
    by (auto simp: call_tool_def execute_shell_def printed_intros)
next
  case ReadFile
  with assms show ?thesis
    by (auto simp: call_tool_def read_file_def printed_intros)
next
  case WriteFile
  with assms show ?thesis
    by (cases "arg ''path''") (auto simp: call_tool_def write_file_def printed_intros)
next
  case ListDirectory
  with assms show ?thesis
    by (auto simp: call_tool_def list_directory_def printed_intros)
next
  case AskLLM
  with assms show ?thesis
    by (auto simp: call_tool_def ask_llm_def Let_def printed_intros)
next
  case Finish
  with assms show ?thesis by simp
qed

lemma choose_result_failure:
  assumes "dispatch_failure ev name args result" and "name \<noteq> []"
  shows "\<exists>w2. printed_more w w2 \<and> choose_result ev (JStr name) args w = (Returns result, w2)"
  using assms
proof (cases rule: dispatch_failure.cases)
  case unknown_tool
  with assms(2) show ?thesis
    by (auto simp: choose_result_def printed_intros)
next
  case (no_mapping func)
  then have "invoke ev name func args w = (Raises (TypeError (wording ev (NotAMapping name args))), w)"
    by (cases args) (auto simp: invoke_def)
  with no_mapping assms(2) show ?thesis
    by (auto simp: choose_result_def invalid_arguments_def printed_intros)
next
  case (bad_arguments func kw)
  then have "invoke ev name func args w = (Raises (TypeError (wording ev (BadArguments name kw))), w)"
    by (auto simp: invoke_def)
  with bad_arguments assms(2) show ?thesis
    by (auto simp: choose_result_def invalid_arguments_def printed_intros)
next
  case (tool_exception func kw e)
  from call_tool_raised [OF tool_exception(5,6), of w] obtain w2 where
    "printed_more w w2"
    "call_tool ev (handler func) (argument func kw) w = (Returns (error_prefix (handler func) @ str_exn e), w2)"
    by blast
  with tool_exception assms(2) show ?thesis
    by (auto simp: choose_result_def invoke_def)
qed

lemma append_turn_field:
  assumes "field st ''history'' = Some (JArr h)"
  shows "\<exists>st'. append_turn wd turn st = Returns st' \<and> field st' ''history'' = Some (JArr (h @ [turn]))"
  using assms by (cases st) (auto simp: append_turn_def dict_get_dict_set)

lemma record_turn_appends:
  assumes "field (state w) ''history'' = Some (JArr h)"
  shows "\<exists>w'. record_turn ev thoughts command_spec result w = (Returns (), w')
    \<and> field (state w') ''history'' = Some (JArr (h @ [normal_turn thoughts command_spec result]))
    \<and> state_file w' = Some (dumps (Some 4) (state w'))"
proof -
  from append_turn_field [OF assms] obtain st' where
    "append_turn (wording ev) (normal_turn thoughts command_spec result) (state w) = Returns st'"
    "field st' ''history'' = Some (JArr (h @ [normal_turn thoughts command_spec result]))"
    by blast
  then show ?thesis
    by (simp add: record_turn_cases save_state_def)
qed

lemma record_error_appends:
  assumes "field (state w) ''history'' = Some (JArr h)"
  shows "\<exists>w'. record_error ev msg w = Continue w'
    \<and> field (state w') ''history'' = Some (JArr (h @ [error_turn msg]))
    \<and> state_file w' = Some (dumps (Some 4) (state w'))"
proof -
  from append_turn_field [OF assms] obtain st' where
    "append_turn (wording ev) (error_turn msg) (state w) = Returns st'"
    "field st' ''history'' = Some (JArr (h @ [error_turn msg]))"
    by blast
  then show ?thesis
    by (simp add: record_error_def Let_def save_state_def print_fields error_turn_def)
qed

lemma iteration_failure:
  assumes "responds ev w t"
    and "field (state w) ''history'' = Some (JArr h)"
    and "loads t = Decoded (JObj response_json)"
    and "get_default response_json ''command'' (JObj []) = JObj spec"
    and "get_default spec ''name'' JNull = JStr name"
    and "name \<noteq> []"
    and "dispatch_failure ev name (get_default spec ''args'' (JObj [])) result"
  shows "\<exists>w'. iteration ev w = Continue w'
    \<and> field (state w') ''history'' =
        Some (JArr (h @ [normal_turn (get_default response_json ''thoughts'' (JStr [])) (JObj spec) result]))
    \<and> state_file w' = Some (dumps (Some 4) (state w'))"
proof -
  from iteration_responds [OF assms(1)] obtain w1 where
    p1: "printed_more w w1"
    and it: "iteration ev w =
      (case process_response ev t w1 of
         (Returns u, w2) \<Rightarrow> Continue w2
       | (Raises e, w2) \<Rightarrow> handle_exception ev e t w2
       | (Outside, w2) \<Rightarrow> Unmodelled)"
    by blast
  define thoughts where "thoughts = get_default response_json ''thoughts'' (JStr [])"
  define args where "args = get_default spec ''args'' (JObj [])"
  define w2 where "w2 = print_response thoughts (JStr name) args w1"
  have p2: "printed_more w w2"
    using p1 print_response_printed unfolding w2_def by (rule printed_more_trans)
  from choose_result_failure [OF assms(7,6), of w2] obtain w3 where
    p3: "printed_more w2 w3"
    and cr: "choose_result ev (JStr name) args w2 = (Returns result, w3)"
    by (auto simp: args_def)
  have "printed_more w w3"
    using p2 p3 by (rule printed_more_trans)
  then have "field (state w3) ''history'' = Some (JArr h)"
    using assms(2) by (simp add: printed_more_fields)
  from record_turn_appends [OF this, of ev thoughts "JObj spec" result] obtain w' where
    rt: "record_turn ev thoughts (JObj spec) result w3 = (Returns (), w')"
    and w': "field (state w') ''history'' = Some (JArr (h @ [normal_turn thoughts (JObj spec) result]))"
      "state_file w' = Some (dumps (Some 4) (state w'))"
    by blast
  have "process_response ev t w1 = (Returns (), w')"
    using assms(3-5) cr rt
    by (simp add: process_response_def act_on_response_command thoughts_def args_def w2_def)
  with it have "iteration ev w = Continue w'" by simp
  with w' show ?thesis
    by (auto simp: thoughts_def)
qed

lemma iteration_invalid_json:
  assumes "responds ev w t" and "field (state w) ''history'' = Some (JArr h)"
    and "loads t = DecodeError"
  shows "\<exists>w'. iteration ev w = Continue w'
    \<and> field (state w') ''history'' = Some (JArr (h @ [error_turn (invalid_json_error t)]))
    \<and> state_file w' = Some (dumps (Some 4) (state w'))"
proof -
  from iteration_responds [OF assms(1)] obtain w1 where
    p1: "printed_more w w1"
    and it: "iteration ev w =
      (case process_response ev t w1 of
         (Returns u, w2) \<Rightarrow> Continue w2
       | (Raises e, w2) \<Rightarrow> handle_exception ev e t w2
       | (Outside, w2) \<Rightarrow> Unmodelled)"
    by blast
  have "field (state w1) ''history'' = Some (JArr h)"
    using assms(2) p1 by (simp add: printed_more_fields)
  from record_error_appends [OF this, of ev "invalid_json_error t"] obtain w' where
    "record_error ev (invalid_json_error t) w1 = Continue w'"
    "field (state w') ''history'' = Some (JArr (h @ [error_turn (invalid_json_error t)]))"
    "state_file w' = Some (dumps (Some 4) (state w'))"
    by blast
  moreover have "iteration ev w = record_error ev (invalid_json_error t) w1"
    using it assms(3)
    by (simp add: process_response_def handle_exception_def invalid_json_error_def)
  ultimately show ?thesis by simp
qed

lemma iteration_missing_command:
  assumes "responds ev w t" and "field (state w) ''history'' = Some (JArr h)"
    and "loads t = Decoded (JObj response_json)"
    and "dict_get response_json ''command'' = None"
  shows "\<exists>w'. iteration ev w = Continue w'
    \<and> field (state w') ''history'' =
        Some (JArr (h @ [normal_turn (get_default response_json ''thoughts'' (JStr [])) (JObj [])
                           malformed_response_error]))
    \<and> state_file w' = Some (dumps (Some 4) (state w'))"
proof -
  from iteration_responds [OF assms(1)] obtain w1 where
    p1: "printed_more w w1"
    and it: "iteration ev w =
      (case process_response ev t w1 of
         (Returns u, w2) \<Rightarrow> Continue w2
       | (Raises e, w2) \<Rightarrow> handle_exception ev e t w2
       | (Outside, w2) \<Rightarrow> Unmodelled)"
    by blast
  define thoughts where "thoughts = get_default response_json ''thoughts'' (JStr [])"
  define w2 where "w2 = print_response thoughts JNull (JObj []) w1"
  have "printed_more w w2"
    using p1 print_response_printed unfolding w2_def by (rule printed_more_trans)
  then have "field (state w2) ''history'' = Some (JArr h)"
    using assms(2) by (simp add: printed_more_fields)
  from record_turn_appends [OF this, of ev thoughts "JObj []" malformed_response_error]
  obtain w' where
    rt: "record_turn ev thoughts (JObj []) malformed_response_error w2 = (Returns (), w')"
    and w': "field (state w') ''history'' =
        Some (JArr (h @ [normal_turn thoughts (JObj []) malformed_response_error]))"
      "state_file w' = Some (dumps (Some 4) (state w'))"
    by blast
  have c: "get_default response_json ''command'' (JObj []) = JObj []"
    using assms(4) by (simp add: get_default_def)
  have "choose_result ev JNull (JObj []) w2 = (Returns malformed_response_error, w2)"
    by (simp add: choose_result_def malformed_response_error_def)
  then have "process_response ev t w1 = (Returns (), w')"
    using assms(3) rt
    by (simp add: process_response_def act_on_response_command [OF c] get_default_def
          dict_get_def thoughts_def w2_def)
  with it have "iteration ev w = Continue w'" by simp
  with w' show ?thesis
    by (auto simp: thoughts_def)
qed

lemma read_file_tool:
  "map_of tools ''read_file'' =
    Some \<lparr>doc = ''Reads the content of a file.'', params = [(''path'', None)],
          annotations = [(''path'', ''str''), (''return'', ''str'')], handler = ReadFile\<rparr>"
  by (simp add: tools_def)

section \<open>Failures of a dispatch and of the response\<close>






section \<open>The tool \<^verbatim>\<open>finish\<close>\<close>



lemma choose_result_finish_Returns:
  assumes "choose_result ev (JStr ''finish'') args w = (Returns result, w')"
  shows "\<exists>m. result = invalid_arguments ''finish'' m"
proof -
  obtain func where f: "map_of tools ''finish'' = Some func" "handler func = Finish"
    by (simp add: tools_def)
  obtain r w1 where inv: "invoke ev ''finish'' func args w = (r, w1)"
    by (cases "invoke ev ''finish'' func args w")
  have "r \<noteq> Returns result"
    using inv f(2)
    by (auto simp: invoke_def call_tool_def finish_def split: json.splits if_splits)
  with assms f(1) inv show ?thesis
    by (cases r) (auto simp: choose_result_def split: exn.splits)
qed

lemma normal_turn_inject:
  "normal_turn t c r = normal_turn t' c' r' \<longleftrightarrow> t = t' \<and> c = c' \<and> r = r'"
  by (auto simp: normal_turn_def)

lemma iteration_Continue_finish:
  assumes "iteration ev w = Continue w'"
    and "field (state w) ''history'' = Some (JArr h)"
    and "field (state w') ''history'' = Some (JArr (h @ [normal_turn thoughts (JObj spec) result]))"
    and "get_default spec ''name'' JNull = JStr ''finish''"
  shows "\<exists>m. result = invalid_arguments ''finish'' m"
proof -
  from iteration_Continue [OF assms(1)] obtain turn st' w3 where
    p: "printed_more w w3" and r: "recordable ev turn"
    and a: "append_turn (wording ev) turn (state w) = Returns st'"
    and w': "w' = save_state (w3\<lparr>state := st'\<rparr>)"
    by blast
  from field_append_turn [OF a] obtain h' where
    "field (state w) ''history'' = Some (JArr h')"
    "field st' ''history'' = Some (JArr (h' @ [turn]))"
    by blast
  moreover have "state w' = st'"
    using w' by (simp add: save_state_def)
  ultimately have turn: "turn = normal_turn thoughts (JObj spec) result"
    using assms(2,3) by simp
  from r show ?thesis
  proof (cases rule: recordable.cases)
    case (error msg)
    with turn show ?thesis
      by (simp add: normal_turn_def error_turn_def)
  next
    case (normal spec' w0 result' w0' thoughts')
    with turn have "spec' = spec" "result' = result"
      by (simp_all add: normal_turn_inject)
    with normal(2) assms(4) show ?thesis
      using choose_result_finish_Returns by simp
  qed
qed

lemma finish_tool:
  "map_of tools ''finish'' =
    Some \<lparr>doc = ''Signals that the main goal has been achieved.'', params = [(''result'', None)],
          annotations = [(''result'', ''str''), (''return'', ''str'')], handler = Finish\<rparr>"
  by (simp add: tools_def)



section \<open>The goal of the agent and the goal in the state\<close>

lemma iteration_cases [case_names no_prompt outside handled recorded]:
  assumes "\<And>e. iteration ev w = Crashed e w \<Longrightarrow> P"
    and "iteration ev w = Unmodelled \<Longrightarrow> P"
    and "\<And>e t w1. printed_more w w1 \<Longrightarrow> iteration ev w = handle_exception ev e t w1 \<Longrightarrow> P"
    and "\<And>t w1 w2. printed_more w w1 \<Longrightarrow> process_response ev t w1 = (Returns (), w2) \<Longrightarrow>
           iteration ev w = Continue w2 \<Longrightarrow> P"
  shows P
proof (cases "construct_prompt ev w")
  case (Returns prompt)
  define w0 where "w0 = print [Lit ''Goal: '', Lit (main_goal w)]
      (print [Lit ''\<newline>==================== PROMPT TO LLM ===================='']  w)"
  have p0: "printed_more w w0"
    by (simp add: w0_def printed_intros)
  obtain r w1 where ob: "obtain_response ev prompt w0 = (r, w1)"
    by (cases "obtain_response ev prompt w0")
  have p1: "printed_more w w1"
    using obtain_response_printed [of w0 ev prompt] ob p0 by (auto intro: printed_more_trans)
  have eq: "iteration ev w =
      (case (r, w1) of
         (Raises e, w1) \<Rightarrow> handle_exception ev e [] w1
       | (Outside, w1) \<Rightarrow> Unmodelled
       | (Returns t, w1) \<Rightarrow>
           (case process_response ev t w1 of
              (Returns u, w2) \<Rightarrow> Continue w2
            | (Raises e, w2) \<Rightarrow> handle_exception ev e t w2
            | (Outside, w2) \<Rightarrow> Unmodelled))"
    using Returns ob by (simp add: iteration_def Let_def w0_def [symmetric])
  show ?thesis
  proof (cases r)
    case (Returns t)
    note rt = this
    obtain r2 w2 where pr: "process_response ev t w1 = (r2, w2)"
      by (cases "process_response ev t w1")
    show ?thesis
    proof (cases r2)
      case (Returns u)
      with eq rt pr p1 assms(4) [of w1 t w2] show ?thesis by simp
    next
      case (Raises e)
      then have "printed_more w1 w2"
        using process_response_printed [OF pr] by simp
      with p1 have "printed_more w w2" by (rule printed_more_trans)
      with eq rt pr Raises assms(3) [of w2 e t] show ?thesis by simp
    next
      case Outside
      with eq rt pr assms(2) show ?thesis by simp
    qed
  next
    case (Raises e)
    with eq p1 assms(3) [of w1 e "[]"] show ?thesis by simp
  next
    case Outside
    with eq assms(2) show ?thesis by simp
  qed
next
  case (Raises e)
  with assms(1) [of e] show ?thesis by (simp add: iteration_def)
next
  case Outside
  with assms(2) show ?thesis by (simp add: iteration_def)
qed

lemma record_error_ends:
  "record_error ev msg w \<noteq> Exited code w'"
  "record_error ev msg w = Crashed e w' \<Longrightarrow> printed_more w w'"
  by (auto simp: record_error_def Let_def printed_intros split: result.splits)

lemma handle_exception_ends:
  "handle_exception ev e t w = Exited code w' \<Longrightarrow>
     printed_more w w' \<or> (\<exists>w1. printed_more w w1 \<and> w' = save_state w1)"
  "handle_exception ev e t w = Crashed x w' \<Longrightarrow> printed_more w w'"
  using record_error_ends [of ev _ w]
  by (cases e; auto simp: handle_exception_def intro: printed_intros)+

lemma iteration_ends:
  "iteration ev w = Exited code w' \<Longrightarrow>
     printed_more w w' \<or> (\<exists>w1. printed_more w w1 \<and> w' = save_state w1)"
  "iteration ev w = Crashed x w' \<Longrightarrow> printed_more w w'"
proof -
  assume a: "iteration ev w = Exited code w'"
  show "printed_more w w' \<or> (\<exists>w1. printed_more w w1 \<and> w' = save_state w1)"
  proof (cases rule: iteration_cases [of ev w])
    case (handled e t w1)
    with a handle_exception_ends(1) [of ev e t w1 code w'] show ?thesis
      by (auto intro: printed_more_trans)
  qed (use a in auto)
next
  assume a: "iteration ev w = Crashed x w'"
  show "printed_more w w'"
  proof (cases rule: iteration_cases [of ev w])
    case (handled e t w1)
    with a handle_exception_ends(2) [of ev e t w1 x w'] show ?thesis
      by (auto intro: printed_more_trans)
  qed (use a in \<open>auto intro: printed_intros\<close>)
qed

lemma iteration_Continue_fields:
  assumes "iteration ev w = Continue w'"
  shows "\<exists>h turn. field (state w) ''history'' = Some (JArr h)
    \<and> field (state w') ''history'' = Some (JArr (h @ [turn]))
    \<and> (\<forall>k. k \<noteq> ''history'' \<longrightarrow> field (state w') k = field (state w) k)
    \<and> state_file w' = Some (dumps (Some 4) (state w'))
    \<and> main_goal w' = main_goal w \<and> manual_mode w' = manual_mode w"
proof -
  from iteration_Continue [OF assms] obtain turn st' w3 where
    p: "printed_more w w3"
    and a: "append_turn (wording ev) turn (state w) = Returns st'"
    and w': "w' = save_state (w3\<lparr>state := st'\<rparr>)"
    by blast
  from field_append_turn [OF a] obtain h where
    "field (state w) ''history'' = Some (JArr h)"
    "field st' ''history'' = Some (JArr (h @ [turn]))"
    "\<forall>k. k \<noteq> ''history'' \<longrightarrow> field st' k = field (state w) k"
    by blast
  moreover have "state w' = st'" "state_file w' = Some (dumps (Some 4) st')"
    "main_goal w' = main_goal w" "manual_mode w' = manual_mode w"
    using w' printed_more_fields [OF p] by (simp_all add: save_state_def)
  ultimately show ?thesis by auto
qed

lemma keeps_goal_printed: "keeps_goal goal g saved w \<Longrightarrow> printed_more w w' \<Longrightarrow> keeps_goal goal g saved w'"
  by (auto simp: keeps_goal_def printed_more_def)

lemma keeps_goal_saved: "keeps_goal goal g saved w \<Longrightarrow> keeps_goal goal g saved (save_state w)"
  by (auto simp: keeps_goal_def save_state_def)

lemma keeps_goal_iteration:
  assumes "keeps_goal goal g saved w" and "world_of (iteration ev w) = Some w'"
  shows "keeps_goal goal g saved w'"
proof (cases "iteration ev w")
  case (Continue w2)
  with assms iteration_Continue_fields [OF Continue] show ?thesis
    by (auto simp: keeps_goal_def)
next
  case (Exited code w2)
  with assms iteration_ends(1) [OF Exited] show ?thesis
    by (auto intro: keeps_goal_printed keeps_goal_saved)
next
  case (Crashed e w2)
  with assms iteration_ends(2) [OF Crashed] show ?thesis
    by (auto intro: keeps_goal_printed)
next
  case Unmodelled
  with assms show ?thesis by simp
qed

lemma keeps_goal_run:
  assumes "keeps_goal goal g saved w" and "world_of (run evs w) = Some w'"
  shows "keeps_goal goal g saved w'"
  using assms
proof (induction evs arbitrary: w)
  case Nil
  then show ?case by simp
next
  case (Cons ev evs)
  show ?case
  proof (cases "iteration ev w")
    case (Continue w2)
    with Cons.prems have "keeps_goal goal g saved w2"
      using keeps_goal_iteration [of goal g saved w ev w2] by simp
    with Cons Continue show ?thesis by simp
  next
    case (Exited code w2)
    with Cons.prems show ?thesis
      using keeps_goal_iteration [of goal g saved w ev w2] by simp
  next
    case (Crashed e w2)
    with Cons.prems show ?thesis
      using keeps_goal_iteration [of goal g saved w ev w2] by simp
  next
    case Unmodelled
    with Cons.prems show ?thesis by simp
  qed
qed

lemma construct_prompt_goal:
  assumes "construct_prompt ev w = Returns prompt"
  shows "\<exists>rest. prompt = SYSTEM_PROMPT_head @ main_goal w @ rest"
  using assms
  by (auto simp: construct_prompt_def format_SYSTEM_PROMPT_def split: json.splits if_splits)

lemma Agent_Returns:
  assumes "Agent wd goal manual (Some content) = Returns agent"
  shows "loads content = Decoded (state agent) \<and> main_goal agent = goal
    \<and> state_file agent = Some content"
  using assms by (auto simp: Agent_def load_state_def split: decoded.splits)



section \<open>The catalog of tools\<close>

text \<open>
  C6, on the registry of the program. The entry of the catalog for \<^verbatim>\<open>execute_shell\<close>
  has the name and the docstring of the tool, but the dictionary after \<^verbatim>\<open>Args:\<close> has
  the key \<^verbatim>\<open>return\<close> beside the one declared argument \<^verbatim>\<open>command\<close>, since it is
  built from all of \<^verbatim>\<open>__annotations__\<close>; and so for each of the six tools.
\<close>

theorem catalog_lists_return_among_the_arguments:
  \<open>fst (hd tools) = ''execute_shell''
   \<and> declared_arguments (hd tools) = [''command'']
   \<and> catalog_keys (hd tools) = [''command'', ''return'']
   \<and> tool_description (hd tools) =
        ''- '' @ [CHR 0x60] @ ''execute_shell'' @ [CHR 0x60] @ '': Executes a command in the system''
          @ [CHR 0x27] @ ''s shell.\<newline>  Args: {"command": "str", "return": "str"}''
   \<and> map declared_arguments tools =
        [[''command''], [''path''], [''path'', ''content''], [''path''], [''question'', ''model''],
         [''result'']]
   \<and> map catalog_keys tools =
        [[''command'', ''return''], [''path'', ''return''], [''path'', ''content'', ''return''],
         [''path'', ''return''], [''question'', ''model'', ''return''], [''result'', ''return'']]\<close>
  by code_simp

section \<open>Reading back what the encoder writes\<close>

lemma digit_char_props: "n < 10 \<Longrightarrow> is_digit (digit_char n) \<and> digit_val (digit_char n) = n"
proof -
  assume "n < 10"
  then consider "n = 0" | "n = 1" | "n = 2" | "n = 3" | "n = 4" | "n = 5" | "n = 6" | "n = 7"
    | "n = 8" | "n = 9"
    by atomize_elim arith
  then show ?thesis
    by cases (simp_all add: digit_char_def is_digit_def digit_val_def ord_def)
qed

lemma digit_char_zero: "n < 10 \<Longrightarrow> digit_char n = CHR ''0'' \<longleftrightarrow> n = 0"
proof -
  assume "n < 10"
  then consider "n = 0" | "n = 1" | "n = 2" | "n = 3" | "n = 4" | "n = 5" | "n = 6" | "n = 7"
    | "n = 8" | "n = 9"
    by atomize_elim arith
  then show ?thesis
    by cases (simp_all add: digit_char_def)
qed

lemma dec_nat_digits: "list_all is_digit (dec_nat n)"
proof (induction n rule: dec_nat.induct)
  case (1 n)
  then show ?case
    by (subst dec_nat.simps) (simp add: digit_char_props)
qed

lemma dec_nat_nonempty: "dec_nat n \<noteq> []"
  by (subst dec_nat.simps) simp

lemma nat_of_digits_snoc: "nat_of_digits (ds @ [c]) = 10 * nat_of_digits ds + digit_val c"
  by (simp add: nat_of_digits_def)

lemma nat_of_digits_dec_nat: "nat_of_digits (dec_nat n) = n"
proof (induction n rule: dec_nat.induct)
  case (1 n)
  show ?case
  proof (cases "n < 10")
    case True
    then show ?thesis
      by (subst dec_nat.simps) (simp add: nat_of_digits_def digit_char_props)
  next
    case False
    with 1 show ?thesis
      by (subst dec_nat.simps) (simp add: nat_of_digits_snoc digit_char_props)
  qed
qed

lemma hd_dec_nat_zero: "hd (dec_nat n) = CHR ''0'' \<longleftrightarrow> n = 0"
proof (induction n rule: dec_nat.induct)
  case (1 n)
  show ?case
  proof (cases "n < 10")
    case True
    then show ?thesis
      by (subst dec_nat.simps) (simp add: digit_char_zero)
  next
    case False
    then have "n div 10 \<noteq> 0" by simp
    with 1 False show ?thesis
      by (subst dec_nat.simps) (simp add: dec_nat_nonempty)
  qed
qed

lemma dec_nat_0: "dec_nat 0 = ''0''"
  by (subst dec_nat.simps) (simp add: digit_char_def)

lemma delimited_not_digit: "delimited rest \<Longrightarrow> rest = [] \<or> \<not> is_digit (hd rest)"
  by (auto simp: delimited_def is_digit_def ord_def)

lemma delimited_not_float: "delimited rest \<Longrightarrow> \<not> float_tail rest"
  by (cases rest rule: float_tail.cases) (auto simp: delimited_def)

lemma takeWhile_digits:
  "list_all is_digit ds \<Longrightarrow> rest = [] \<or> \<not> is_digit (hd rest) \<Longrightarrow>
     takeWhile is_digit (ds @ rest) = ds \<and> dropWhile is_digit (ds @ rest) = rest"
  by (induction ds) (cases rest; auto)+

lemma scan_nat_dec_nat:
  assumes "delimited rest"
  shows "scan_nat (dec_nat n @ rest) = Got (n, rest)"
proof (cases "n = 0")
  case True
  then show ?thesis
    using delimited_not_float [OF assms] by (simp add: dec_nat_0 scan_nat_def)
next
  case False
  obtain c cs where cs: "dec_nat n = c # cs"
    using dec_nat_nonempty [of n] by (cases "dec_nat n") auto
  have c: "c \<noteq> CHR ''0''" "is_digit c"
    using hd_dec_nat_zero [of n] False dec_nat_digits [of n] cs by auto
  have "takeWhile is_digit (dec_nat n @ rest) = dec_nat n"
    "dropWhile is_digit (dec_nat n @ rest) = rest"
    using takeWhile_digits [OF dec_nat_digits delimited_not_digit [OF assms]] by auto
  then show ?thesis
    using c cs delimited_not_float [OF assms] nat_of_digits_dec_nat [of n]
    by (simp add: scan_nat_def)
qed

lemma scan_number_dec_int:
  assumes "delimited rest"
  shows "scan_number (dec_int i @ rest) = Got (i, rest)"
proof (cases "i < 0")
  case True
  obtain c cs where cs: "dec_nat (nat (- i)) = c # cs"
    using dec_nat_nonempty [of "nat (- i)"] by (cases "dec_nat (nat (- i))") auto
  then have "is_digit c"
    using dec_nat_digits [of "nat (- i)"] by simp
  then have "c \<noteq> CHR ''I''"
    by (auto simp: is_digit_def ord_def)
  then have "take 8 (dec_nat (nat (- i)) @ rest) \<noteq> ''Infinity''"
    using cs by auto
  with True show ?thesis
    using scan_nat_dec_nat [OF assms, of "nat (- i)"]
    by (simp add: dec_int_def scan_number_def)
next
  case False
  obtain c cs where cs: "dec_nat (nat i) = c # cs"
    using dec_nat_nonempty [of "nat i"] by (cases "dec_nat (nat i)") auto
  then have "is_digit c"
    using dec_nat_digits [of "nat i"] by simp
  then have "c \<noteq> CHR ''-''"
    by (auto simp: is_digit_def ord_def)
  with False cs show ?thesis
    using scan_nat_dec_nat [OF assms, of "nat i"]
    by (simp add: dec_int_def scan_number_def)
qed

lemma ord_less_256: "ord c < 256"
  by (simp add: ord_def)

lemma char_of_ord: "char_of (ord c) = c"
  by (simp add: ord_def)

lemma hex_val_hex_digit: "k < 16 \<Longrightarrow> hex_val (hex_digit k) = Some k"
proof -
  assume "k < 16"
  then consider "k = 0" | "k = 1" | "k = 2" | "k = 3" | "k = 4" | "k = 5" | "k = 6" | "k = 7"
    | "k = 8" | "k = 9" | "k = 10" | "k = 11" | "k = 12" | "k = 13" | "k = 14" | "k = 15"
    by atomize_elim arith
  then show ?thesis
    by cases (simp_all add: hex_digit_def hex_val_def ord_def)
qed

lemma hex_val_zero: "hex_val CHR ''0'' = Some 0"
  by (simp add: hex_val_def ord_def)

lemma hex4_escape: "n < 256 \<Longrightarrow> hex4 CHR ''0'' CHR ''0'' (hex_digit (n div 16)) (hex_digit (n mod 16)) = Some n"
proof -
  assume "n < 256"
  then have "n div 16 < 16" by simp
  then show ?thesis
    by (simp add: hex4_def hex_val_zero hex_val_hex_digit)
qed

lemma scan_string_escape: "scan_string (escape_char c @ after) = push_char c (scan_string after)"
proof -
  consider (quote) "c = dq" | (backslash) "c = bs"
    | (special) "c \<in> {CHR 0x0A, CHR 0x0D, CHR 0x09, CHR 0x08, CHR 0x0C}"
    | (coded) "c \<noteq> dq" "c \<noteq> bs" "c \<notin> {CHR 0x0A, CHR 0x0D, CHR 0x09, CHR 0x08, CHR 0x0C}"
        "ord c < 0x20 \<or> ord c > 0x7E"
    | (plain) "c \<noteq> dq" "c \<noteq> bs" "\<not> ord c < 0x20" "\<not> ord c > 0x7E"
    by (auto simp: ord_def)
  then show ?thesis
  proof cases
    case quote
    then show ?thesis
      by (simp add: escape_char_def unescape_def dq_def bs_def)
  next
    case backslash
    then show ?thesis
      by (simp add: escape_char_def unescape_def dq_def bs_def)
  next
    case special
    then show ?thesis
      by (auto simp: escape_char_def unescape_def dq_def bs_def)
  next
    case coded
    then have "escape_char c = [bs, CHR ''u'', CHR ''0'', CHR ''0'',
        hex_digit (ord c div 16), hex_digit (ord c mod 16)]"
      by (auto simp: escape_char_def)
    then show ?thesis
      using hex4_escape [OF ord_less_256 [of c]] ord_less_256 [of c]
      by (simp add: dq_def bs_def char_of_ord)
  next
    case plain
    then have "escape_char c = [c]"
      by (auto simp: escape_char_def ord_def)
    with plain show ?thesis by simp
  qed
qed

lemma scan_string_encoded:
  "scan_string (concat (map escape_char s) @ dq # rest) = Got (s, rest)"
  by (induction s) (simp_all add: scan_string_escape push_char_def)

lemma push_tok_append: "push_tok t r = before [t] r"
  by (cases r) (simp_all add: push_tok_def before_def)

lemma scan_map_append: "before a (before b r) = before (a @ b) r"
  by (cases r) (simp_all add: before_def)

lemma scan_map_Nil: "before [] r = r"
  by (cases r) (simp_all add: before_def)

lemma before_Got: "before ts (Got ts') = Got (ts @ ts')"
  by (simp add: before_def)

lemma lex_ws: "is_ws c \<Longrightarrow> lex (c # cs) = lex cs"
  by (simp add: lex.simps)

lemma lex_spaces: "lex (replicate n CHR '' '' @ rest) = lex rest"
  by (induction n) (simp_all add: lex_ws is_ws_def)

lemma lex_newline_indent: "lex (newline_indent indent level @ rest) = lex rest"
  by (cases indent) (simp_all add: newline_indent_def lex_ws is_ws_def lex_spaces)

lemma lex_punctuation:
  "lex (CHR ''['' # rest) = before [LBracket] (lex rest)"
  "lex (CHR '']'' # rest) = before [RBracket] (lex rest)"
  "lex (CHR ''{'' # rest) = before [LBrace] (lex rest)"
  "lex (CHR ''}'' # rest) = before [RBrace] (lex rest)"
  "lex (CHR '','' # rest) = before [Comma] (lex rest)"
  "lex (CHR '':'' # rest) = before [Colon] (lex rest)"
  by (simp_all add: lex.simps is_ws_def push_tok_append)

lemma lex_literals:
  "lex (''null'' @ rest) = before [TNull] (lex rest)"
  "lex (''true'' @ rest) = before [TBool True] (lex rest)"
  "lex (''false'' @ rest) = before [TBool False] (lex rest)"
  by (simp_all add: lex.simps is_ws_def dq_def push_tok_append)

lemma lex_quote:
  "lex (dq # cs) =
    (case scan_string cs of
       Got (s, rest) \<Rightarrow> push_tok (TStr s) (lex rest)
     | Invalid \<Rightarrow> Invalid
     | Beyond \<Rightarrow> Beyond)"
  by (subst lex.simps) (simp add: is_ws_def dq_def)

lemma lex_encode_str: "lex (encode_str s @ rest) = before [TStr s] (lex rest)"
  by (simp add: encode_str_def lex_quote scan_string_encoded push_tok_append)

lemma lex_number_start:
  assumes "is_digit c \<or> c = CHR ''-''"
  shows "lex (c # cs) =
    (case scan_number (c # cs) of
       Got (i, rest) \<Rightarrow> push_tok (TInt i) (lex rest)
     | Invalid \<Rightarrow> Invalid
     | Beyond \<Rightarrow> Beyond)"
proof -
  have "\<not> is_ws c" "c \<noteq> CHR ''[''" "c \<noteq> CHR '']''" "c \<noteq> CHR ''{''" "c \<noteq> CHR ''}''"
    "c \<noteq> CHR '',''" "c \<noteq> CHR '':''" "c \<noteq> dq" "c \<noteq> CHR ''n''" "c \<noteq> CHR ''t''"
    "c \<noteq> CHR ''f''" "c \<noteq> CHR ''N''" "c \<noteq> CHR ''I''"
    using assms by (auto simp: is_digit_def ord_def is_ws_def dq_def)
  then show ?thesis
    by (subst lex.simps) simp
qed

lemma lex_dec_int:
  assumes "delimited rest"
  shows "lex (dec_int i @ rest) = before [TInt i] (lex rest)"
proof -
  have "\<exists>c cs. dec_int i = c # cs \<and> (is_digit c \<or> c = CHR ''-'')"
  proof (cases "i < 0")
    case True
    then show ?thesis by (simp add: dec_int_def)
  next
    case False
    then show ?thesis
      using dec_nat_nonempty [of "nat i"] dec_nat_digits [of "nat i"]
      by (cases "dec_nat (nat i)") (simp_all add: dec_int_def)
  qed
  then obtain c cs where cs: "dec_int i = c # cs" "is_digit c \<or> c = CHR ''-''"
    by blast
  then have "lex (dec_int i @ rest) =
    (case scan_number (dec_int i @ rest) of
       Got (i, rest) \<Rightarrow> push_tok (TInt i) (lex rest)
     | Invalid \<Rightarrow> Invalid
     | Beyond \<Rightarrow> Beyond)"
    using lex_number_start [of c "cs @ rest"] by simp
  then show ?thesis
    by (simp add: scan_number_dec_int [OF assms] push_tok_append)
qed

lemma join_Cons: "join sep (x # xs) = x @ concat (map ((@) sep) xs)"
  by (induction xs arbitrary: x) simp_all

lemma lex_item_separator:
  "lex (item_separator indent @ newline_indent indent level @ rest) = before [Comma] (lex rest)"
  by (cases indent)
     (simp_all add: item_separator_def lex_punctuation lex_ws is_ws_def lex_newline_indent)

lemma delimited_item_separator: "delimited (item_separator indent @ rest)"
  by (cases indent) (simp_all add: item_separator_def delimited_def)

lemma delimited_close:
  "delimited (newline_indent indent level @ CHR '']'' # rest)"
  "delimited (newline_indent indent level @ CHR ''}'' # rest)"
  by (cases indent; simp add: newline_indent_def delimited_def)+

lemma lex_key_separator: "lex ('': '' @ rest) = before [Colon] (lex rest)"
  by (simp add: lex_punctuation lex_ws is_ws_def)

lemma lex_items:
  assumes item: "\<And>x r. x \<in> set xs \<Longrightarrow> delimited r \<Longrightarrow> lex (f x @ r) = before ((g x)) (lex r)"
    and "delimited rest"
  shows "lex (concat (map (\<lambda>x. item_separator indent @ newline_indent indent level @ f x) xs) @ rest)
    = before ((concat (map (\<lambda>x. Comma # g x) xs))) (lex rest)"
  using item
proof (induction xs)
  case Nil
  show ?case by (simp add: scan_map_Nil)
next
  case (Cons x xs)
  have d: "delimited (concat (map (\<lambda>x. item_separator indent @ newline_indent indent level @ f x) xs) @ rest)"
    using assms(2) by (cases xs) (simp_all add: delimited_item_separator)
  have "lex (concat (map (\<lambda>x. item_separator indent @ newline_indent indent level @ f x) xs) @ rest)
    = before ((concat (map (\<lambda>x. Comma # g x) xs))) (lex rest)"
    using Cons by simp
  then show ?case
    using Cons.prems [of x, OF _ d]
    by (simp add: lex_item_separator scan_map_append)
qed

lemma lex_joined:
  assumes item: "\<And>x r. x \<in> set xs \<Longrightarrow> delimited r \<Longrightarrow> lex (f x @ r) = before ((g x)) (lex r)"
    and "delimited rest" and "xs \<noteq> []"
  shows "lex (join (item_separator indent @ newline_indent indent level) (map f xs) @ rest)
    = before ((join [Comma] (map g xs))) (lex rest)"
proof -
  from assms(3) obtain x ys where xs: "xs = x # ys"
    by (cases xs) auto
  have d: "delimited (concat (map (\<lambda>x. item_separator indent @ newline_indent indent level @ f x) ys) @ rest)"
    using assms(2) by (cases ys) (simp_all add: delimited_item_separator)
  have "lex (concat (map (\<lambda>x. item_separator indent @ newline_indent indent level @ f x) ys) @ rest)
    = before ((concat (map (\<lambda>x. Comma # g x) ys))) (lex rest)"
    using lex_items [of ys f g rest indent level] item assms(2) xs by simp
  then show ?thesis
    using item [of x, OF _ d] xs
    by (simp add: join_Cons comp_def scan_map_append)
qed

lemma lex_encode:
  "delimited rest \<Longrightarrow> lex (encode indent level v @ rest) = before ((tokens v)) (lex rest)"
proof (induction v arbitrary: level rest)
  case JNull
  then show ?case using lex_literals(1) by simp
next
  case (JBool b)
  then show ?case using lex_literals(2,3) by (cases b) simp_all
next
  case (JInt i)
  then show ?case by (simp add: lex_dec_int)
next
  case (JStr s)
  then show ?case by (simp add: lex_encode_str)
next
  case (JArr xs)
  show ?case
  proof (cases "xs = []")
    case True
    then show ?thesis
      by (simp add: lex_punctuation scan_map_append)
  next
    case False
    have "lex (join (item_separator indent @ newline_indent indent (Suc level))
                (map (encode indent (Suc level)) xs)
              @ newline_indent indent level @ CHR '']'' # rest)
      = before ((join [Comma] (map tokens xs)))
          (lex (newline_indent indent level @ CHR '']'' # rest))"
      using JArr.IH False by (intro lex_joined delimited_close) auto
    with False show ?thesis
      by (simp add: lex_punctuation lex_newline_indent scan_map_append)
  qed
next
  case (JObj kvs)
  show ?case
  proof (cases "kvs = []")
    case True
    then show ?thesis
      by (simp add: lex_punctuation scan_map_append)
  next
    case False
    have item: "lex ((encode_str (fst kv) @ '': '' @ encode indent (Suc level) (snd kv)) @ r)
        = before ((TStr (fst kv) # Colon # tokens (snd kv))) (lex r)"
      if "kv \<in> set kvs" "delimited r" for kv r
    proof -
      have "lex (encode indent (Suc level) (snd kv) @ r) = before ((tokens (snd kv))) (lex r)"
        using JObj.IH [of kv "snd kv"] that by (cases kv) auto
      then show ?thesis
        using lex_key_separator [of "encode indent (Suc level) (snd kv) @ r"]
        by (simp add: lex_encode_str scan_map_append del: append.simps) simp
    qed
    have "lex (join (item_separator indent @ newline_indent indent (Suc level))
                (map (\<lambda>kv. encode_str (fst kv) @ '': '' @ encode indent (Suc level) (snd kv)) kvs)
              @ newline_indent indent level @ CHR ''}'' # rest)
      = before ((join [Comma] (map (\<lambda>kv. TStr (fst kv) # Colon # tokens (snd kv)) kvs)))
          (lex (newline_indent indent level @ CHR ''}'' # rest))"
      using item False by (intro lex_joined delimited_close) auto
    with False show ?thesis
      by (simp add: lex_punctuation lex_newline_indent scan_map_append)
  qed
qed

lemma dict_set_fresh: "k \<notin> fst ` set d \<Longrightarrow> dict_set d k v = d @ [(k, v)]"
  by (induction d) auto

lemma foldl_dict_set_distinct:
  "distinct (map fst (acc @ ps)) \<Longrightarrow>
     foldl (\<lambda>d kv. dict_set d (fst kv) (snd kv)) acc ps = acc @ ps"
proof (induction ps arbitrary: acc)
  case Nil
  then show ?case by simp
next
  case (Cons kv ps)
  then have "dict_set acc (fst kv) (snd kv) = acc @ [kv]"
    by (simp add: dict_set_fresh)
  moreover have "distinct (map fst ((acc @ [kv]) @ ps))"
    using Cons.prems by simp
  ultimately show ?case
    using Cons.IH [of "acc @ [kv]"] by simp
qed

lemma mk_dict_distinct: "distinct (map fst ps) \<Longrightarrow> mk_dict ps = ps"
  using foldl_dict_set_distinct [of "[]" ps] by (simp add: mk_dict_def)

lemma join_Comma: "join [Comma] (f x # map f xs) = f x @ concat (map (\<lambda>y. Comma # f y) xs)"
  by (induction xs arbitrary: x) simp_all

lemma psteps_append:
  "psteps st (ts @ ts') = (case psteps st ts of None \<Rightarrow> None | Some st' \<Rightarrow> psteps st' ts')"
  by (induction ts arbitrary: st) (auto split: option.splits)

lemma tokens_begin: "\<exists>t ts. tokens v = t # ts \<and> t \<noteq> RBracket"
  by (cases v) auto

lemma psteps_ArrOpen:
  "psteps (ArrOpen stk) (tokens v @ rest) = psteps (Expect (ArrF [] # stk)) (tokens v @ rest)"
proof -
  obtain t ts where "tokens v = t # ts" "t \<noteq> RBracket"
    using tokens_begin by blast
  then show ?thesis by simp
qed

lemma psteps_elements:
  assumes "\<And>y stk rest. y \<in> set ys \<Longrightarrow>
      psteps (Expect stk) (tokens y @ rest) = psteps (complete y stk) rest"
  shows "psteps (InArr es stk) (concat (map (\<lambda>y. Comma # tokens y) ys) @ RBracket # rest)
    = psteps (complete (JArr (es @ ys)) stk) rest"
  using assms
proof (induction ys arbitrary: es)
  case Nil
  show ?case by simp
next
  case (Cons y ys)
  have "psteps (InArr es stk)
      (concat (map (\<lambda>y. Comma # tokens y) (y # ys)) @ RBracket # rest)
    = psteps (Expect (ArrF es # stk))
        (tokens y @ concat (map (\<lambda>y. Comma # tokens y) ys) @ RBracket # rest)"
    by simp
  also have "\<dots> = psteps (InArr (es @ [y]) stk)
        (concat (map (\<lambda>y. Comma # tokens y) ys) @ RBracket # rest)"
    using Cons.prems [of y] by simp
  also have "\<dots> = psteps (complete (JArr ((es @ [y]) @ ys)) stk) rest"
    using Cons.IH [of "es @ [y]"] Cons.prems by simp
  finally show ?case by simp
qed

lemma psteps_members:
  assumes "\<And>kv stk rest. kv \<in> set kvs \<Longrightarrow>
      psteps (Expect stk) (tokens (snd kv) @ rest) = psteps (complete (snd kv) stk) rest"
  shows "psteps (InObj ps stk)
      (concat (map (\<lambda>kv. Comma # TStr (fst kv) # Colon # tokens (snd kv)) kvs)
        @ RBrace # rest)
    = psteps (complete (JObj (mk_dict (ps @ kvs))) stk) rest"
  using assms
proof (induction kvs arbitrary: ps)
  case Nil
  show ?case by simp
next
  case (Cons kv kvs)
  have "psteps (InObj ps stk)
      (concat (map (\<lambda>kv. Comma # TStr (fst kv) # Colon # tokens (snd kv)) (kv # kvs))
        @ RBrace # rest)
    = psteps (Expect (ObjF ps (fst kv) # stk))
        (tokens (snd kv)
          @ concat (map (\<lambda>kv. Comma # TStr (fst kv) # Colon # tokens (snd kv)) kvs)
          @ RBrace # rest)"
    by simp
  also have "\<dots> = psteps (InObj (ps @ [kv]) stk)
        (concat (map (\<lambda>kv. Comma # TStr (fst kv) # Colon # tokens (snd kv)) kvs)
          @ RBrace # rest)"
    using Cons.prems [of kv] by simp
  also have "\<dots> = psteps (complete (JObj (mk_dict ((ps @ [kv]) @ kvs))) stk) rest"
    using Cons.IH [of "ps @ [kv]"] Cons.prems by simp
  finally show ?case by simp
qed

lemma psteps_tokens:
  "wf_json v \<Longrightarrow> psteps (Expect stk) (tokens v @ rest) = psteps (complete v stk) rest"
proof (induction v arbitrary: stk rest)
  case (JArr xs)
  show ?case
  proof (cases xs)
    case Nil
    then show ?thesis by simp
  next
    case (Cons x ys)
    have ih: "psteps (Expect stk) (tokens y @ rest) = psteps (complete y stk) rest"
      if "y \<in> set xs" for y stk rest
      using JArr.IH [OF that] JArr.prems that by (simp add: list_all_iff)
    have "psteps (Expect stk) (tokens (JArr xs) @ rest)
      = psteps (ArrOpen stk)
          (tokens x @ concat (map (\<lambda>y. Comma # tokens y) ys) @ RBracket # rest)"
      using Cons by (simp add: join_Comma)
    also have "\<dots> = psteps (InArr [x] stk)
          (concat (map (\<lambda>y. Comma # tokens y) ys) @ RBracket # rest)"
      using ih [of x] Cons by (simp add: psteps_ArrOpen)
    also have "\<dots> = psteps (complete (JArr ([x] @ ys)) stk) rest"
      using ih Cons by (intro psteps_elements) simp
    finally show ?thesis using Cons by simp
  qed
next
  case (JObj kvs)
  show ?case
  proof (cases kvs)
    case Nil
    then show ?thesis by simp
  next
    case (Cons kv kvs')
    have ih: "psteps (Expect stk) (tokens (snd p) @ rest) = psteps (complete (snd p) stk) rest"
      if "p \<in> set kvs" for p stk rest
      using JObj.IH [of p "snd p"] JObj.prems that by (cases p) (auto simp: list_all_iff)
    have "psteps (Expect stk) (tokens (JObj kvs) @ rest)
      = psteps (Expect (ObjF [] (fst kv) # stk))
          (tokens (snd kv)
            @ concat (map (\<lambda>kv. Comma # TStr (fst kv) # Colon # tokens (snd kv)) kvs')
            @ RBrace # rest)"
      using Cons join_Comma [of "\<lambda>kv. TStr (fst kv) # Colon # tokens (snd kv)" kv kvs'] by simp
    also have "\<dots> = psteps (InObj [kv] stk)
          (concat (map (\<lambda>kv. Comma # TStr (fst kv) # Colon # tokens (snd kv)) kvs')
            @ RBrace # rest)"
      using ih [of kv] Cons by simp
    also have "\<dots> = psteps (complete (JObj (mk_dict ([kv] @ kvs'))) stk) rest"
      using ih Cons by (intro psteps_members) simp
    finally show ?thesis
      using Cons JObj.prems by (simp add: mk_dict_distinct)
  qed
qed simp_all

lemma loads_dumps: "wf_json v \<Longrightarrow> loads (dumps indent v) = Decoded v"
proof -
  assume wf: "wf_json v"
  have "lex (encode indent 0 v @ []) = before (tokens v) (lex [])"
    by (rule lex_encode) (simp add: delimited_def)
  then have "lex (dumps indent v) = Got (tokens v)"
    by (simp add: dumps_def lex.simps before_Got)
  moreover have "psteps (Expect []) (tokens v @ []) = psteps (complete v []) []"
    using wf by (rule psteps_tokens)
  ultimately show ?thesis
    by (simp add: loads_def)
qed

section \<open>Saving and loading the state\<close>



end
